theory Spec2Isabelle
  imports Main "HOL-Library.Word"
begin

unbundle bit_operations_syntax

section \<open>Data model of the Gigabyte keyboard HID driver\<close>

text \<open>
  The driver (driver/gigabytekbd_driver.c) keeps its whole state in file-scope statics.
  They are gathered in one record that every function takes and returns. Pointers are
  options: \<open>None\<close> is the NULL pointer, \<open>Some\<close> carries the object (or, for input
  devices and device drivers, the identity of the object, a number standing for its
  address). Dereferencing NULL is the value \<open>Inl NullDeref\<close>.
\<close>

type_synonym u8 = "8 word"
type_synonym u32 = "32 word"

text \<open>The key codes the driver reports (linux/input-event-codes.h), as an enumeration.\<close>

datatype key = KEY_WLAN | KEY_SWITCHVIDEOMODE | KEY_VOLUMEDOWN | KEY_VOLUMEUP
  | KEY_RFKILL | KEY_PROG1 | KEY_PROG2

text \<open>The two statically declared work items (DECLARE_WORK, lines 98-99).\<close>

datatype work = gigabyte_kbd_backlight_toggle_work | gigabyte_kbd_touchpad_toggle_driver_work

text \<open>\<open>struct backlight_device\<close>: only \<open>props.power\<close> is read by the driver.\<close>

record backlight_device =
  power :: int

text \<open>\<open>struct device\<close> of the touchpad: only its \<open>driver\<close> pointer is used.\<close>

record device =
  driver :: "nat option"

datatype fault = NullDeref | OutOfBounds

text \<open>
  Calls into the kernel whose only effect is outside the driver's own variables are
  recorded, in order, in the field \<open>calls\<close>: the input events reported on an input
  device, the report handed back to the HID core, and the submissions of work.
\<close>

datatype kcall =
    Input_report_key nat key int
  | Input_sync nat
  | Hid_report_raw_event "u8 list"
  | Schedule_work work

record kbd =
  gigabyte_kbd_input_dev :: "nat option"
  gigabyte_kbd_consumer_dev :: "nat option"
  gigabyte_kbd_refcount :: "32 word"
  gigabyte_kbd_backlight_device :: "backlight_device option"
  gigabyte_kbd_touchpad_driver :: "nat option"
  gigabyte_kbd_touchpad_device :: "device option"
  calls :: "kcall list"
  pending :: "work list"

text \<open>The statics are zero-initialised when the module is loaded.\<close>

definition module_loaded :: kbd where
  "module_loaded =
     \<lparr>gigabyte_kbd_input_dev = None, gigabyte_kbd_consumer_dev = None,
      gigabyte_kbd_refcount = 0, gigabyte_kbd_backlight_device = None,
      gigabyte_kbd_touchpad_driver = None, gigabyte_kbd_touchpad_device = None,
      calls = [], pending = []\<rparr>"

section \<open>Raw event codes\<close>

definition HIDRAW_FN_ESC :: u32 where "HIDRAW_FN_ESC = 0x04000084"
definition HIDRAW_FN_F2 :: u32 where "HIDRAW_FN_F2 = 0x0400007C"
definition HIDRAW_FN_F3 :: u32 where "HIDRAW_FN_F3 = 0x0400007D"
definition HIDRAW_FN_F4 :: u32 where "HIDRAW_FN_F4 = 0x0400007E"
definition HIDRAW_FN_F5 :: u32 where "HIDRAW_FN_F5 = 0x0400007F"
definition HIDRAW_FN_F6 :: u32 where "HIDRAW_FN_F6 = 0x04000080"
definition HIDRAW_FN_F8_PRESS :: u32 where "HIDRAW_FN_F8_PRESS = 0x04000186"
definition HIDRAW_FN_F8_RELEASE :: u32 where "HIDRAW_FN_F8_RELEASE = 0x04000086"
definition HIDRAW_FN_F9_PRESS :: u32 where "HIDRAW_FN_F9_PRESS = 0x04000187"
definition HIDRAW_FN_F9_RELEASE :: u32 where "HIDRAW_FN_F9_RELEASE = 0x04000087"
definition HIDRAW_FN_F10 :: u32 where "HIDRAW_FN_F10 = 0x04000081"
definition HIDRAW_FN_F11 :: u32 where "HIDRAW_FN_F11 = 0x04000082"
definition HIDRAW_FN_F12 :: u32 where "HIDRAW_FN_F12 = 0x04000083"
definition HIDRAW_FN_F12_ALT :: u32 where "HIDRAW_FN_F12_ALT = 0x04000088"

lemmas HIDRAW_defs =
  HIDRAW_FN_ESC_def HIDRAW_FN_F2_def HIDRAW_FN_F3_def HIDRAW_FN_F4_def HIDRAW_FN_F5_def
  HIDRAW_FN_F6_def HIDRAW_FN_F8_PRESS_def HIDRAW_FN_F8_RELEASE_def HIDRAW_FN_F9_PRESS_def
  HIDRAW_FN_F9_RELEASE_def HIDRAW_FN_F10_def HIDRAW_FN_F11_def HIDRAW_FN_F12_def
  HIDRAW_FN_F12_ALT_def

text \<open>
  \<open>make_u32(a, b, c, d) = (a) << 24 | (b) << 16 | (c) << 8 | (d)\<close>: the four bytes
  are widened before shifting and the result is stored in a \<open>u32\<close>.
\<close>

definition make_u32 :: "u8 \<Rightarrow> u8 \<Rightarrow> u8 \<Rightarrow> u8 \<Rightarrow> u32" where
  "make_u32 a b c d =
     push_bit 24 (ucast a) OR push_bit 16 (ucast b) OR push_bit 8 (ucast c) OR ucast d"

section \<open>Kernel interfaces used by the driver\<close>

text \<open>
  \<open>FB_BLANK_UNBLANK\<close> and \<open>FB_BLANK_POWERDOWN\<close> come from the kernel headers
  (linux/fb.h), not from the driver.
\<close>

definition FB_BLANK_UNBLANK :: int where "FB_BLANK_UNBLANK = 0"
definition FB_BLANK_POWERDOWN :: int where "FB_BLANK_POWERDOWN = 4"

text \<open>
  \<open>backlight_enable\<close> and \<open>backlight_disable\<close> (linux/backlight.h) set
  \<open>props.power\<close> of the device they are given and do nothing on NULL.
\<close>

definition backlight_enable :: "backlight_device option \<Rightarrow> backlight_device option" where
  "backlight_enable bd = map_option (\<lambda>b. b\<lparr>power := FB_BLANK_UNBLANK\<rparr>) bd"

definition backlight_disable :: "backlight_device option \<Rightarrow> backlight_device option" where
  "backlight_disable bd = map_option (\<lambda>b. b\<lparr>power := FB_BLANK_POWERDOWN\<rparr>) bd"

text \<open>\<open>device_release_driver(dev)\<close> detaches the driver: \<open>dev->driver\<close> becomes NULL.\<close>

definition device_release_driver :: "device \<Rightarrow> device" where
  "device_release_driver dev = dev\<lparr>driver := None\<rparr>"

text \<open>
  \<open>device_driver_attach(drv, dev)\<close> binds \<open>drv\<close> to \<open>dev\<close> and returns 0, or fails
  with a negative errno and leaves the device unbound. Which of the two happens is
  decided by the kernel: the return value is the parameter \<open>err\<close>.
\<close>

definition device_driver_attach :: "int \<Rightarrow> nat \<Rightarrow> device \<Rightarrow> device" where
  "device_driver_attach err drv dev = (if err = 0 then dev\<lparr>driver := Some drv\<rparr> else dev)"

text \<open>\<open>input_report_key\<close>, \<open>input_sync\<close> and \<open>hid_report_raw_event\<close> are recorded.\<close>

definition input_report_key :: "nat \<Rightarrow> key \<Rightarrow> int \<Rightarrow> kbd \<Rightarrow> kbd" where
  "input_report_key dev k v s = s\<lparr>calls := calls s @ [Input_report_key dev k v]\<rparr>"

definition input_sync :: "nat \<Rightarrow> kbd \<Rightarrow> kbd" where
  "input_sync dev s = s\<lparr>calls := calls s @ [Input_sync dev]\<rparr>"

definition hid_report_raw_event :: "u8 list \<Rightarrow> nat \<Rightarrow> kbd \<Rightarrow> kbd" where
  "hid_report_raw_event rd sz s = s\<lparr>calls := calls s @ [Hid_report_raw_event (take sz rd)]\<rparr>"

text \<open>
  Modelled from the spec: \<open>schedule_work\<close> and the worker that runs submitted work belong
  to the kernel's work queue, which is not part of the driver's sources. The spec's
  Deferred Operation Queue: submission always succeeds; multiple submissions of the same
  kind before execution collapse to a single pending instance (no queuing of
  duplicates); a single logical worker executes pending tasks in submission order.
\<close>

definition schedule_work :: "work \<Rightarrow> kbd \<Rightarrow> kbd" where
  "schedule_work w s =
     s\<lparr>calls := calls s @ [Schedule_work w],
       pending := (if w \<in> set (pending s) then pending s else pending s @ [w])\<rparr>"

section \<open>The driver's functions\<close>

text \<open>Lines 67-70. The backlight pointer is dereferenced without a NULL check.\<close>

definition gigabyte_kbd_is_backlight_off :: "kbd \<Rightarrow> fault + bool" where
  "gigabyte_kbd_is_backlight_off s =
     (case gigabyte_kbd_backlight_device s of
        None \<Rightarrow> Inl NullDeref
      | Some bd \<Rightarrow> Inr (power bd = FB_BLANK_POWERDOWN))"

text \<open>Lines 72-78.\<close>

definition gigabyte_kbd_backlight_toggle :: "kbd \<Rightarrow> fault + kbd" where
  "gigabyte_kbd_backlight_toggle s =
     (case gigabyte_kbd_is_backlight_off s of
        Inl f \<Rightarrow> Inl f
      | Inr off \<Rightarrow>
          if off
          then Inr (s\<lparr>gigabyte_kbd_backlight_device :=
                        backlight_enable (gigabyte_kbd_backlight_device s)\<rparr>)
          else Inr (s\<lparr>gigabyte_kbd_backlight_device :=
                        backlight_disable (gigabyte_kbd_backlight_device s)\<rparr>))"

text \<open>Lines 80-92. The return value of \<open>device_driver_attach\<close> is discarded.\<close>

definition gigabyte_kbd_touchpad_toggle_driver :: "int \<Rightarrow> kbd \<Rightarrow> fault + kbd" where
  "gigabyte_kbd_touchpad_toggle_driver err s =
     (case gigabyte_kbd_touchpad_device s of
        None \<Rightarrow> Inl NullDeref
      | Some dev \<Rightarrow>
          (case driver dev of
             Some d \<Rightarrow>
               Inr (s\<lparr>gigabyte_kbd_touchpad_driver := Some d,
                      gigabyte_kbd_touchpad_device := Some (device_release_driver dev)\<rparr>)
           | None \<Rightarrow>
               (case gigabyte_kbd_touchpad_driver s of
                  Some drv \<Rightarrow>
                    Inr (s\<lparr>gigabyte_kbd_touchpad_device :=
                             Some (device_driver_attach err drv dev)\<rparr>)
                | None \<Rightarrow> Inr s)))"

text \<open>
  Modelled from the spec: the worker of the Deferred Operation Queue. It takes the oldest
  pending work item off the queue and runs its function; \<open>err\<close> is what
  \<open>device_driver_attach\<close> will return should the function call it. The result names
  the work item that was executed, if any.
\<close>

definition worker_step :: "int \<Rightarrow> kbd \<Rightarrow> fault + (work option \<times> kbd)" where
  "worker_step err s =
     (case pending s of
        [] \<Rightarrow> Inr (None, s)
      | w # ws \<Rightarrow>
          (case (case w of
                   gigabyte_kbd_backlight_toggle_work \<Rightarrow>
                     gigabyte_kbd_backlight_toggle (s\<lparr>pending := ws\<rparr>)
                 | gigabyte_kbd_touchpad_toggle_driver_work \<Rightarrow>
                     gigabyte_kbd_touchpad_toggle_driver err (s\<lparr>pending := ws\<rparr>)) of
             Inl f \<Rightarrow> Inl f
           | Inr s' \<Rightarrow> Inr (Some w, s')))"

text \<open>Lines 102-110: a key press and release, each followed by a sync.\<close>

definition gigabyte_kbd_emit_key :: "nat option \<Rightarrow> key \<Rightarrow> kbd \<Rightarrow> kbd" where
  "gigabyte_kbd_emit_key input k s =
     (case input of
        None \<Rightarrow> s
      | Some dev \<Rightarrow>
          input_sync dev (input_report_key dev k 0
            (input_sync dev (input_report_key dev k 1 s))))"

text \<open>
  Lines 113-121: \<open>dev = gigabyte_kbd_consumer_dev ?: gigabyte_kbd_input_dev\<close>, then one
  key event and a sync on it, or nothing when both are NULL.
\<close>

definition gigabyte_kbd_emit_volume :: "key \<Rightarrow> int \<Rightarrow> kbd \<Rightarrow> kbd" where
  "gigabyte_kbd_emit_volume k pressed s =
     (case (case gigabyte_kbd_consumer_dev s of
              Some c \<Rightarrow> Some c
            | None \<Rightarrow> gigabyte_kbd_input_dev s) of
        None \<Rightarrow> s
      | Some dev \<Rightarrow> input_sync dev (input_report_key dev k pressed s))"

text \<open>
  Lines 123-201. The arguments are the state, \<open>report->id\<close>, the buffer \<open>rd\<close> and
  \<open>size\<close>; the result is the return value (1: handled, 0: not handled), the buffer as
  the function leaves it, and the new state. The buffer is read at indices 0 to 3
  once \<open>size\<close> is known to be 4; a buffer shorter than that is read out of bounds.
\<close>

definition gigabyte_kbd_raw_event ::
  "kbd \<Rightarrow> nat \<Rightarrow> u8 list \<Rightarrow> int \<Rightarrow> fault + (int \<times> u8 list \<times> kbd)" where
  "gigabyte_kbd_raw_event s report_id rd sz =
     (if report_id \<noteq> 4 \<or> sz \<noteq> 4 then Inr (0, rd, s)
      else if length rd < 4 then Inl OutOfBounds
      else
        let hidraw = make_u32 (rd ! 0) (rd ! 1) (rd ! 2) (rd ! 3) in
        if hidraw = HIDRAW_FN_ESC then
          Inr (1, rd, gigabyte_kbd_emit_key (gigabyte_kbd_input_dev s) KEY_PROG2 s)
        else if hidraw = HIDRAW_FN_F2 then
          Inr (1, rd, gigabyte_kbd_emit_key (gigabyte_kbd_input_dev s) KEY_WLAN s)
        else if hidraw = HIDRAW_FN_F3 then
          (case gigabyte_kbd_is_backlight_off s of
             Inl f \<Rightarrow> Inl f
           | Inr off \<Rightarrow>
               if off then Inr (0, rd, s)
               else
                 let rd1 = rd[0 := 0x03, 1 := 0x70, 2 := 0x00];
                     s1 = hid_report_raw_event rd1 4 s;
                     rd2 = rd1[0 := 0x03, 1 := 0x00, 2 := 0x00]
                 in Inr (1, rd2, s1))
        else if hidraw = HIDRAW_FN_F4 then
          (case gigabyte_kbd_is_backlight_off s of
             Inl f \<Rightarrow> Inl f
           | Inr off \<Rightarrow>
               if off then Inr (0, rd, s)
               else
                 let rd1 = rd[0 := 0x03, 1 := 0x6f, 2 := 0x00];
                     s1 = hid_report_raw_event rd1 4 s;
                     rd2 = rd1[0 := 0x03, 1 := 0x00, 2 := 0x00]
                 in Inr (1, rd2, s1))
        else if hidraw = HIDRAW_FN_F5 then
          Inr (1, rd, gigabyte_kbd_emit_key (gigabyte_kbd_input_dev s) KEY_SWITCHVIDEOMODE s)
        else if hidraw = HIDRAW_FN_F6 then
          Inr (0, rd,
            if gigabyte_kbd_backlight_device s \<noteq> None
            then schedule_work gigabyte_kbd_backlight_toggle_work s else s)
        else if hidraw = HIDRAW_FN_F8_PRESS then
          Inr (1, rd, gigabyte_kbd_emit_volume KEY_VOLUMEDOWN 1 s)
        else if hidraw = HIDRAW_FN_F8_RELEASE then
          Inr (1, rd, gigabyte_kbd_emit_volume KEY_VOLUMEDOWN 0 s)
        else if hidraw = HIDRAW_FN_F9_PRESS then
          Inr (1, rd, gigabyte_kbd_emit_volume KEY_VOLUMEUP 1 s)
        else if hidraw = HIDRAW_FN_F9_RELEASE then
          Inr (1, rd, gigabyte_kbd_emit_volume KEY_VOLUMEUP 0 s)
        else if hidraw = HIDRAW_FN_F10 then
          Inr (0, rd,
            if gigabyte_kbd_touchpad_device s \<noteq> None
            then schedule_work gigabyte_kbd_touchpad_toggle_driver_work s else s)
        else if hidraw = HIDRAW_FN_F11 then
          Inr (1, rd, gigabyte_kbd_emit_key (gigabyte_kbd_input_dev s) KEY_RFKILL s)
        else if hidraw = HIDRAW_FN_F12 \<or> hidraw = HIDRAW_FN_F12_ALT then
          Inr (1, rd, gigabyte_kbd_emit_key (gigabyte_kbd_input_dev s) KEY_PROG1 s)
        else Inr (0, rd, s))"

text \<open>
  Lines 227-267. \<open>alloc\<close> is what \<open>input_allocate_device\<close> returns (NULL or a new
  device) and \<open>reg\<close> what \<open>input_register_device\<close> returns (0 or a negative errno);
  neither is called when the device already exists. The name, the ids and the key bits
  written into the new device stay inside that device and are not part of the state (a
  device is represented by its address alone). The counter is a C \<open>int\<close>: a
  32-bit word read as signed, whose increment wraps around (the kernel is built with
  \<open>-fno-strict-overflow\<close>).
\<close>

definition ENOMEM :: int where "ENOMEM = 12"

definition gigabyte_kbd_setup_input_dev :: "nat option \<Rightarrow> int \<Rightarrow> kbd \<Rightarrow> int \<times> kbd" where
  "gigabyte_kbd_setup_input_dev alloc reg s =
     (if gigabyte_kbd_input_dev s \<noteq> None
      then (0, s\<lparr>gigabyte_kbd_refcount := gigabyte_kbd_refcount s + 1\<rparr>)
      else
        (case alloc of
           None \<Rightarrow> (- ENOMEM, s)
         | Some input \<Rightarrow>
             if reg \<noteq> 0 then (reg, s)
             else (0, s\<lparr>gigabyte_kbd_input_dev := Some input, gigabyte_kbd_refcount := 1\<rparr>)))"

text \<open>Lines 330-341 (\<open>hid_hw_stop\<close> does not touch the driver's variables).\<close>

definition gigabyte_kbd_remove :: "kbd \<Rightarrow> kbd" where
  "gigabyte_kbd_remove s =
     (if 0 <s gigabyte_kbd_refcount s then
        let s1 = s\<lparr>gigabyte_kbd_refcount := gigabyte_kbd_refcount s - 1\<rparr> in
        if gigabyte_kbd_refcount s1 = 0 \<and> gigabyte_kbd_input_dev s1 \<noteq> None
        then s1\<lparr>gigabyte_kbd_input_dev := None\<rparr>
        else s1
      else s)"

text \<open>
  Lines 269-328. What probe obtains from the kernel is its environment: whether the
  private data could be allocated, the results of \<open>hid_parse\<close> and \<open>hid_hw_start\<close>,
  the inputs of the HID device (name and input device of each), what
  \<open>gigabyte_kbd_setup_input_dev\<close> will get from the allocation and the registration,
  and the results of the two lookups, \<open>backlight_device_get_by_name\<close> and
  \<open>bus_find_device\<close>. The private data is written and never read, so it is left out
  of the state.
\<close>

record probe_env =
  priv_allocated :: bool
  hid_parse_ret :: int
  hid_hw_start_ret :: int
  hdev_inputs :: "(string option \<times> nat) list"
  input_allocated :: "nat option"
  input_register_ret :: int
  backlight_found :: "backlight_device option"
  touchpad_found :: "device option"

text \<open>\<open>strstr(haystack, needle) != NULL\<close>: the needle occurs in the haystack.\<close>

fun strstr :: "string \<Rightarrow> string \<Rightarrow> bool" where
  "strstr [] needle = (needle = [])"
| "strstr (c # cs) needle = (take (length needle) (c # cs) = needle \<or> strstr cs needle)"

definition gigabyte_kbd_probe :: "probe_env \<Rightarrow> kbd \<Rightarrow> int \<times> kbd" where
  "gigabyte_kbd_probe env s =
     (if \<not> priv_allocated env then (- ENOMEM, s)
      else if hid_parse_ret env \<noteq> 0 then (hid_parse_ret env, s)
      else if hid_hw_start_ret env \<noteq> 0 then (hid_hw_start_ret env, s)
      else
        let s1 = (if gigabyte_kbd_consumer_dev s = None then
                    (case find (\<lambda>(name, input).
                                  case name of
                                    None \<Rightarrow> False
                                  | Some n \<Rightarrow> strstr n ''Consumer Control'')
                            (hdev_inputs env) of
                       None \<Rightarrow> s
                     | Some (name, input) \<Rightarrow> s\<lparr>gigabyte_kbd_consumer_dev := Some input\<rparr>)
                  else s);
            s2 = snd (gigabyte_kbd_setup_input_dev (input_allocated env)
                        (input_register_ret env) s1);
            s3 = s2\<lparr>gigabyte_kbd_backlight_device := backlight_found env,
                    gigabyte_kbd_touchpad_device := touchpad_found env\<rparr>
        in (0, case touchpad_found env of
                 None \<Rightarrow> s3
               | Some dev \<Rightarrow> s3\<lparr>gigabyte_kbd_touchpad_driver := driver dev\<rparr>))"

section \<open>The catalog of recognised codes and concrete sessions\<close>

text \<open>The fourteen codes the \<open>switch\<close> of \<open>gigabyte_kbd_raw_event\<close> has a case for.\<close>

definition hidraw_catalog :: "u32 list" where
  "hidraw_catalog =
     [HIDRAW_FN_ESC, HIDRAW_FN_F2, HIDRAW_FN_F3, HIDRAW_FN_F4, HIDRAW_FN_F5, HIDRAW_FN_F6,
      HIDRAW_FN_F8_PRESS, HIDRAW_FN_F8_RELEASE, HIDRAW_FN_F9_PRESS, HIDRAW_FN_F9_RELEASE,
      HIDRAW_FN_F10, HIDRAW_FN_F11, HIDRAW_FN_F12, HIDRAW_FN_F12_ALT]"

text \<open>
  A session in which everything was found: the Fn-key input device (1), the Consumer
  Control device (2), a backlight that is on, and a touchpad bound to driver 5.
\<close>

definition running_session :: kbd where
  "running_session =
     \<lparr>gigabyte_kbd_input_dev = Some 1, gigabyte_kbd_consumer_dev = Some 2,
      gigabyte_kbd_refcount = 1, gigabyte_kbd_backlight_device = Some \<lparr>power = 0\<rparr>,
      gigabyte_kbd_touchpad_driver = Some 5,
      gigabyte_kbd_touchpad_device = Some \<lparr>driver = Some 5\<rparr>,
      calls = [], pending = []\<rparr>"

text \<open>
  A probe that finds a Consumer Control input and creates the Fn-key device, but finds
  neither a backlight nor a touchpad.
\<close>

definition bare_probe :: probe_env where
  "bare_probe =
     \<lparr>priv_allocated = True, hid_parse_ret = 0, hid_hw_start_ret = 0,
      hdev_inputs = [(Some ''Gigabyte Keyboard'', 3), (Some ''Gigabyte Consumer Control'', 2)],
      input_allocated = Some 1, input_register_ret = 0,
      backlight_found = None, touchpad_found = None\<rparr>"

text \<open>The same probe when \<open>input_allocate_device\<close> returns NULL.\<close>

definition failed_creation_probe :: probe_env where
  "failed_creation_probe = bare_probe\<lparr>input_allocated := None\<rparr>"

section \<open>Traces\<close>

text \<open>
  An execution trace interleaves the two contexts that touch the work queue: the event
  handler receiving a report (its return value and the buffer it leaves are dropped
  here), and the worker running one pending work item.
\<close>

datatype step = Dispatch nat "u8 list" int | Worker int

fun run_step :: "step \<Rightarrow> kbd \<Rightarrow> fault + kbd" where
  "run_step (Dispatch report_id rd sz) s =
     (case gigabyte_kbd_raw_event s report_id rd sz of
        Inl f \<Rightarrow> Inl f
      | Inr (r, rd', s') \<Rightarrow> Inr s')"
| "run_step (Worker err) s =
     (case worker_step err s of
        Inl f \<Rightarrow> Inl f
      | Inr (w, s') \<Rightarrow> Inr s')"

fun run_steps :: "step list \<Rightarrow> kbd \<Rightarrow> fault + kbd" where
  "run_steps [] s = Inr s"
| "run_steps (x # xs) s =
     (case run_step x s of
        Inl f \<Rightarrow> Inl f
      | Inr s' \<Rightarrow> run_steps xs s')"

text \<open>
  The life of the shared input device: an interface is attached by
  \<open>gigabyte_kbd_setup_input_dev\<close> (called from probe, which only warns when it fails)
  and detached by \<open>gigabyte_kbd_remove\<close>. An attach carries what the allocation and the
  registration would return.
\<close>

datatype sink_op = Attach "nat option" int | Detach

fun sink_step :: "sink_op \<Rightarrow> kbd \<Rightarrow> kbd" where
  "sink_step (Attach alloc reg) s = snd (gigabyte_kbd_setup_input_dev alloc reg s)"
| "sink_step Detach s = gigabyte_kbd_remove s"

fun sink_run :: "sink_op list \<Rightarrow> kbd \<Rightarrow> kbd" where
  "sink_run [] s = s"
| "sink_run (x # xs) s = sink_run xs (sink_step x s)"

text \<open>The number of attaches in a sequence.\<close>

fun attaches :: "sink_op list \<Rightarrow> nat" where
  "attaches [] = 0"
| "attaches (Attach alloc reg # xs) = Suc (attaches xs)"
| "attaches (Detach # xs) = attaches xs"

text \<open>
  The invariant of the reference count, for a bound \<open>n\<close>: while no device is
  registered the count is 0; while one is registered it lies between 1 and \<open>n\<close>.
\<close>

definition sink_inv :: "nat \<Rightarrow> kbd \<Rightarrow> bool" where
  "sink_inv n s =
     (if gigabyte_kbd_input_dev s = None then gigabyte_kbd_refcount s = 0
      else 1 \<le> sint (gigabyte_kbd_refcount s) \<and> sint (gigabyte_kbd_refcount s) \<le> int n)"

text \<open>
  No attach of the sequence is made while the reference count stands at the largest
  value of a C \<open>int\<close>, 2^31 - 1.
\<close>

fun attaches_below_max :: "sink_op list \<Rightarrow> kbd \<Rightarrow> bool" where
  "attaches_below_max [] s = True"
| "attaches_below_max (Attach alloc reg # xs) s =
     (sint (gigabyte_kbd_refcount s) < 2 ^ 31 - 1 \<and>
      attaches_below_max xs (sink_step (Attach alloc reg) s))"
| "attaches_below_max (Detach # xs) s = attaches_below_max xs (sink_step Detach s)"

section \<open>The bytes of a code\<close>

lemma make_u32_byte3: "ucast (drop_bit 24 (make_u32 a b c d)) = a"
  unfolding make_u32_def
  by (rule bit_word_eqI) (auto simp add: bit_simps dest: bit_imp_le_length)

lemma make_u32_byte2: "ucast (drop_bit 16 (make_u32 a b c d)) = b"
  unfolding make_u32_def
  by (rule bit_word_eqI) (auto simp add: bit_simps dest: bit_imp_le_length)

lemma make_u32_byte1: "ucast (drop_bit 8 (make_u32 a b c d)) = c"
  unfolding make_u32_def
  by (rule bit_word_eqI) (auto simp add: bit_simps dest: bit_imp_le_length)

lemma make_u32_byte0: "ucast (make_u32 a b c d) = d"
  unfolding make_u32_def
  by (rule bit_word_eqI) (auto simp add: bit_simps dest: bit_imp_le_length)

text \<open>A code determines its four bytes: \<open>make_u32\<close> is injective.\<close>

lemma make_u32_bytes:
  assumes "make_u32 a b c d = w"
  shows "a = ucast (drop_bit 24 w) \<and> b = ucast (drop_bit 16 w) \<and> c = ucast (drop_bit 8 w)
    \<and> d = ucast w"
  using assms make_u32_byte3 [of a b c d] make_u32_byte2 [of a b c d]
    make_u32_byte1 [of a b c d] make_u32_byte0 [of a b c d]
  by simp

section \<open>The event router\<close>

text \<open>
  Claim C6. A report whose id is not 4 or whose size is not 4 is returned as not handled
  (0) with the buffer and the whole state as they were: no key event, no rewrite of the
  bytes, no submission of work. The same holds for a report with id 4 and size 4 whose
  32-bit code is none of the fourteen codes of the catalog.
\<close>

theorem raw_event_unrecognised:
  "(report_id \<noteq> 4 \<or> sz \<noteq> 4 \<longrightarrow> gigabyte_kbd_raw_event s report_id rd sz = Inr (0, rd, s)) \<and>
   (4 \<le> length rd \<and> make_u32 (rd ! 0) (rd ! 1) (rd ! 2) (rd ! 3) \<notin> set hidraw_catalog \<longrightarrow>
      gigabyte_kbd_raw_event s 4 rd 4 = Inr (0, rd, s))"
  by (simp add: gigabyte_kbd_raw_event_def hidraw_catalog_def Let_def)

theorem raw_event_unrecognised_witness:
  "gigabyte_kbd_raw_event running_session 3 [0x04, 0x00, 0x00, 0x7C] 4
     = Inr (0, [0x04, 0x00, 0x00, 0x7C], running_session) \<and>
   gigabyte_kbd_raw_event running_session 4 [0x04, 0x00, 0x00, 0x7C, 0x00] 5
     = Inr (0, [0x04, 0x00, 0x00, 0x7C, 0x00], running_session) \<and>
   gigabyte_kbd_raw_event running_session 4 [0x04, 0x00, 0x00, 0x85] 4
     = Inr (0, [0x04, 0x00, 0x00, 0x85], running_session)"
proof -
  have c: "make_u32 ([0x04, 0x00, 0x00, 0x85] ! 0) ([0x04, 0x00, 0x00, 0x85] ! 1)
      ([0x04, 0x00, 0x00, 0x85] ! 2) ([0x04, 0x00, 0x00, 0x85] ! 3) \<notin> set hidraw_catalog"
    by (simp add: make_u32_def hidraw_catalog_def HIDRAW_defs)
  show ?thesis
    using raw_event_unrecognised [of 3 4 running_session "[0x04, 0x00, 0x00, 0x7C]"]
      raw_event_unrecognised [of 4 5 running_session "[0x04, 0x00, 0x00, 0x7C, 0x00]"]
      raw_event_unrecognised [of 4 4 running_session "[0x04, 0x00, 0x00, 0x85]"] c
    by simp
qed


text \<open>
  Claim C9. \<open>gigabyte_kbd_emit_key\<close> returns a state, never a fault. On NULL (no sink
  registered) it does nothing; on a device it reports the key down, syncs, reports it
  up, syncs. A report with id 4, size 4 and code 0x0400007C is handled (1) and the state
  is that of one \<open>gigabyte_kbd_emit_key\<close> of \<open>KEY_WLAN\<close> on the Fn-key input device:
  with the device registered, exactly those four calls are added.
\<close>

theorem emit_key_pulse:
  "gigabyte_kbd_emit_key None k s = s \<and>
   gigabyte_kbd_emit_key (Some dev) k s =
     s\<lparr>calls := calls s @ [Input_report_key dev k 1, Input_sync dev,
                            Input_report_key dev k 0, Input_sync dev]\<rparr> \<and>
   (4 \<le> length rd \<and> make_u32 (rd ! 0) (rd ! 1) (rd ! 2) (rd ! 3) = HIDRAW_FN_F2 \<longrightarrow>
      gigabyte_kbd_raw_event s 4 rd 4 =
        Inr (1, rd, gigabyte_kbd_emit_key (gigabyte_kbd_input_dev s) KEY_WLAN s)) \<and>
   (gigabyte_kbd_input_dev s = Some dev \<longrightarrow>
      gigabyte_kbd_raw_event s 4 [0x04, 0x00, 0x00, 0x7C] 4 =
        Inr (1, [0x04, 0x00, 0x00, 0x7C],
             s\<lparr>calls := calls s @ [Input_report_key dev KEY_WLAN 1, Input_sync dev,
                                    Input_report_key dev KEY_WLAN 0, Input_sync dev]\<rparr>))"
  by (simp add: gigabyte_kbd_emit_key_def input_report_key_def input_sync_def
      gigabyte_kbd_raw_event_def Let_def HIDRAW_defs make_u32_def)

theorem emit_key_pulse_witness:
  "gigabyte_kbd_raw_event running_session 4 [0x04, 0x00, 0x00, 0x7C] 4 =
     Inr (1, [0x04, 0x00, 0x00, 0x7C],
          running_session\<lparr>calls := [Input_report_key 1 KEY_WLAN 1, Input_sync 1,
                                     Input_report_key 1 KEY_WLAN 0, Input_sync 1]\<rparr>)"
proof -
  have d: "gigabyte_kbd_input_dev running_session = Some 1"
    by (simp add: running_session_def)
  have c: "calls running_session = []"
    by (simp add: running_session_def)
  from emit_key_pulse [where s = running_session and dev = 1] d c show ?thesis
    by simp
qed

text \<open>
  Claim C7. For each of the four volume codes the report is handled (1), the buffer is
  untouched, and the state is that of one \<open>gigabyte_kbd_emit_volume\<close> with the key of
  the direction (F8: \<open>KEY_VOLUMEDOWN\<close>, F9: \<open>KEY_VOLUMEUP\<close>) and the value of the
  polarity (press 1, release 0): one key event and its sync, on the Consumer Control
  device when there is one and on the Fn-key input device otherwise (nothing is reported
  when neither exists).
\<close>

theorem volume_codes:
  assumes "4 \<le> length rd"
    and "make_u32 (rd ! 0) (rd ! 1) (rd ! 2) (rd ! 3) = code"
    and "(code, k, v) \<in> {(HIDRAW_FN_F8_PRESS, KEY_VOLUMEDOWN, 1),
                          (HIDRAW_FN_F8_RELEASE, KEY_VOLUMEDOWN, 0),
                          (HIDRAW_FN_F9_PRESS, KEY_VOLUMEUP, 1),
                          (HIDRAW_FN_F9_RELEASE, KEY_VOLUMEUP, 0)}"
  shows "gigabyte_kbd_raw_event s 4 rd 4 = Inr (1, rd, gigabyte_kbd_emit_volume k v s) \<and>
    gigabyte_kbd_emit_volume k v s =
      s\<lparr>calls := calls s @
         (case gigabyte_kbd_consumer_dev s of
            Some c \<Rightarrow> [Input_report_key c k v, Input_sync c]
          | None \<Rightarrow>
              (case gigabyte_kbd_input_dev s of
                 Some p \<Rightarrow> [Input_report_key p k v, Input_sync p]
               | None \<Rightarrow> []))\<rparr>"
proof
  show "gigabyte_kbd_raw_event s 4 rd 4 = Inr (1, rd, gigabyte_kbd_emit_volume k v s)"
    using assms by (auto simp add: gigabyte_kbd_raw_event_def Let_def HIDRAW_defs)
  show "gigabyte_kbd_emit_volume k v s =
      s\<lparr>calls := calls s @
         (case gigabyte_kbd_consumer_dev s of
            Some c \<Rightarrow> [Input_report_key c k v, Input_sync c]
          | None \<Rightarrow>
              (case gigabyte_kbd_input_dev s of
                 Some p \<Rightarrow> [Input_report_key p k v, Input_sync p]
               | None \<Rightarrow> []))\<rparr>"
    by (simp add: gigabyte_kbd_emit_volume_def input_report_key_def input_sync_def
        split: option.split)
qed

theorem volume_codes_witness:
  "gigabyte_kbd_raw_event running_session 4 [0x04, 0x00, 0x01, 0x86] 4 =
     Inr (1, [0x04, 0x00, 0x01, 0x86],
          running_session\<lparr>calls := [Input_report_key 2 KEY_VOLUMEDOWN 1, Input_sync 2]\<rparr>) \<and>
   gigabyte_kbd_raw_event (running_session\<lparr>gigabyte_kbd_consumer_dev := None\<rparr>) 4
       [0x04, 0x00, 0x00, 0x87] 4 =
     Inr (1, [0x04, 0x00, 0x00, 0x87],
          running_session\<lparr>gigabyte_kbd_consumer_dev := None,
            calls := [Input_report_key 1 KEY_VOLUMEUP 0, Input_sync 1]\<rparr>)"
proof -
  have a: "make_u32 ([0x04, 0x00, 0x01, 0x86] ! 0) ([0x04, 0x00, 0x01, 0x86] ! 1)
      ([0x04, 0x00, 0x01, 0x86] ! 2) ([0x04, 0x00, 0x01, 0x86] ! 3) = HIDRAW_FN_F8_PRESS"
    by (simp add: make_u32_def HIDRAW_defs)
  have b: "make_u32 ([0x04, 0x00, 0x00, 0x87] ! 0) ([0x04, 0x00, 0x00, 0x87] ! 1)
      ([0x04, 0x00, 0x00, 0x87] ! 2) ([0x04, 0x00, 0x00, 0x87] ! 3) = HIDRAW_FN_F9_RELEASE"
    by (simp add: make_u32_def HIDRAW_defs)
  have l: "4 \<le> length [0x04 :: u8, 0x00, 0x01, 0x86]" "4 \<le> length [0x04 :: u8, 0x00, 0x00, 0x87]"
    by simp_all
  show ?thesis
    using volume_codes [OF l(1) a, where k = KEY_VOLUMEDOWN and v = 1 and s = running_session]
      volume_codes [OF l(2) b, where k = KEY_VOLUMEUP and v = 0 and s = "running_session\<lparr>gigabyte_kbd_consumer_dev := None\<rparr>"]
    by (simp add: running_session_def)
qed


text \<open>
  Claim C8. The backlight-toggle code 0x04000080 and the touchpad-toggle code 0x04000081
  are never handled: the result is 0 and the buffer is untouched. The matching work item
  is submitted, once, exactly when the matching device pointer is not NULL; when it is
  NULL the state is unchanged.
\<close>

theorem toggle_codes_pass_through:
  assumes "4 \<le> length rd"
    and "make_u32 (rd ! 0) (rd ! 1) (rd ! 2) (rd ! 3) = code"
    and "(code, present, w) \<in>
           {(HIDRAW_FN_F6, gigabyte_kbd_backlight_device s \<noteq> None,
               gigabyte_kbd_backlight_toggle_work),
            (HIDRAW_FN_F10, gigabyte_kbd_touchpad_device s \<noteq> None,
               gigabyte_kbd_touchpad_toggle_driver_work)}"
  shows "\<exists>s'. gigabyte_kbd_raw_event s 4 rd 4 = Inr (0, rd, s') \<and>
    s' = (if present then schedule_work w s else s) \<and>
    calls s' = calls s @ (if present then [Schedule_work w] else [])"
proof -
  consider (backlight) "code = HIDRAW_FN_F6"
      "present = (gigabyte_kbd_backlight_device s \<noteq> None)"
      "w = gigabyte_kbd_backlight_toggle_work"
    | (touchpad) "code = HIDRAW_FN_F10"
      "present = (gigabyte_kbd_touchpad_device s \<noteq> None)"
      "w = gigabyte_kbd_touchpad_toggle_driver_work"
    using assms(3) by blast
  then show ?thesis
  proof cases
    case backlight
    have "gigabyte_kbd_raw_event s 4 rd 4 =
        Inr (0, rd, if present then schedule_work w s else s)"
      using assms(1,2) backlight
      by (simp add: gigabyte_kbd_raw_event_def Let_def HIDRAW_defs)
    then show ?thesis
      by (simp add: schedule_work_def)
  next
    case touchpad
    have "gigabyte_kbd_raw_event s 4 rd 4 =
        Inr (0, rd, if present then schedule_work w s else s)"
      using assms(1,2) touchpad
      by (simp add: gigabyte_kbd_raw_event_def Let_def HIDRAW_defs)
    then show ?thesis
      by (simp add: schedule_work_def)
  qed
qed

theorem toggle_codes_pass_through_witness:
  "gigabyte_kbd_raw_event running_session 4 [0x04, 0x00, 0x00, 0x80] 4 =
     Inr (0, [0x04, 0x00, 0x00, 0x80],
          running_session\<lparr>calls := [Schedule_work gigabyte_kbd_backlight_toggle_work],
            pending := [gigabyte_kbd_backlight_toggle_work]\<rparr>) \<and>
   gigabyte_kbd_raw_event (running_session\<lparr>gigabyte_kbd_touchpad_device := None\<rparr>) 4
       [0x04, 0x00, 0x00, 0x81] 4 =
     Inr (0, [0x04, 0x00, 0x00, 0x81], running_session\<lparr>gigabyte_kbd_touchpad_device := None\<rparr>)"
proof -
  have a: "make_u32 ([0x04, 0x00, 0x00, 0x80] ! 0) ([0x04, 0x00, 0x00, 0x80] ! 1)
      ([0x04, 0x00, 0x00, 0x80] ! 2) ([0x04, 0x00, 0x00, 0x80] ! 3) = HIDRAW_FN_F6"
    by (simp add: make_u32_def HIDRAW_defs)
  have b: "make_u32 ([0x04, 0x00, 0x00, 0x81] ! 0) ([0x04, 0x00, 0x00, 0x81] ! 1)
      ([0x04, 0x00, 0x00, 0x81] ! 2) ([0x04, 0x00, 0x00, 0x81] ! 3) = HIDRAW_FN_F10"
    by (simp add: make_u32_def HIDRAW_defs)
  have l: "4 \<le> length [0x04 :: u8, 0x00, 0x00, 0x80]" "4 \<le> length [0x04 :: u8, 0x00, 0x00, 0x81]"
    by simp_all
  show ?thesis
    using toggle_codes_pass_through [OF l(1) a, where s = running_session and present = True
        and w = gigabyte_kbd_backlight_toggle_work]
      toggle_codes_pass_through [OF l(2) b,
        where s = "running_session\<lparr>gigabyte_kbd_touchpad_device := None\<rparr>"
        and present = False and w = gigabyte_kbd_touchpad_toggle_driver_work]
    by (simp add: running_session_def schedule_work_def)
qed


text \<open>
  Claim C1. For a report with id 4 and size 4 whose code is 0x0400007D (step byte 0x70) or
  0x0400007E (step byte 0x6f), with a backlight device present: when its power is
  \<open>FB_BLANK_POWERDOWN\<close> the report is not handled and buffer and state stay as they
  were; otherwise the bytes 0x03, step, 0x00 are written over bytes 0 to 2, that report
  is handed to \<open>hid_report_raw_event\<close>, the bytes are reset to 0x03, 0x00, 0x00, and the
  report is handled. The bytes whose value differs from the received report, in the
  report handed on or in the buffer left behind, are exactly bytes 0 and 1.
\<close>

theorem brightness_step:
  assumes "length rd = 4"
    and "make_u32 (rd ! 0) (rd ! 1) (rd ! 2) (rd ! 3) = code"
    and "(code, step) \<in> {(HIDRAW_FN_F3, 0x70), (HIDRAW_FN_F4, 0x6f)}"
    and "gigabyte_kbd_backlight_device s = Some bd"
  shows "(power bd = FB_BLANK_POWERDOWN \<longrightarrow>
            gigabyte_kbd_raw_event s 4 rd 4 = Inr (0, rd, s)) \<and>
         (power bd \<noteq> FB_BLANK_POWERDOWN \<longrightarrow>
            gigabyte_kbd_raw_event s 4 rd 4 =
              Inr (1, [0x03, 0x00, 0x00, rd ! 3],
                   s\<lparr>calls := calls s @ [Hid_report_raw_event [0x03, step, 0x00, rd ! 3]]\<rparr>)) \<and>
         {i. i < 4 \<and> ([0x03, step, 0x00, rd ! 3] ! i \<noteq> rd ! i \<or>
                         [0x03, 0x00, 0x00, rd ! 3] ! i \<noteq> rd ! i)} = {0, 1}"
proof -
  obtain a b c d where rd: "rd = [a, b, c, d]"
    using assms(1) by (auto simp add: length_Suc_conv numeral_eq_Suc)
  have off: "gigabyte_kbd_is_backlight_off s = Inr (power bd = FB_BLANK_POWERDOWN)"
    using assms(4) by (simp add: gigabyte_kbd_is_backlight_off_def)
  consider (F3) "code = HIDRAW_FN_F3" "step = 0x70" | (F4) "code = HIDRAW_FN_F4" "step = 0x6f"
    using assms(3) by blast
  then show ?thesis
  proof cases
    case F3
    have m: "make_u32 a b c d = 0x0400007D"
      using assms(2) F3 by (simp add: rd HIDRAW_FN_F3_def)
    have bytes: "a = 4" "b = 0" "c = 0" "d = 0x7D"
      using make_u32_bytes [OF m] by simp_all
    have ev: "gigabyte_kbd_raw_event s 4 rd 4 =
        (if power bd = FB_BLANK_POWERDOWN then Inr (0, rd, s)
         else Inr (1, [0x03, 0x00, 0x00, rd ! 3],
                   s\<lparr>calls := calls s @ [Hid_report_raw_event [0x03, step, 0x00, rd ! 3]]\<rparr>))"
      using m off F3(2)
      by (simp add: rd gigabyte_kbd_raw_event_def Let_def HIDRAW_defs hid_report_raw_event_def)
    have diff: "{i. i < 4 \<and> ([0x03, step, 0x00, rd ! 3] ! i \<noteq> rd ! i \<or>
                         [0x03, 0x00, 0x00, rd ! 3] ! i \<noteq> rd ! i)} = {0, 1}"
      using bytes F3(2) by (auto simp add: rd nth_Cons' split: if_splits)
    from ev diff show ?thesis by simp
  next
    case F4
    have m: "make_u32 a b c d = 0x0400007E"
      using assms(2) F4 by (simp add: rd HIDRAW_FN_F4_def)
    have bytes: "a = 4" "b = 0" "c = 0" "d = 0x7E"
      using make_u32_bytes [OF m] by simp_all
    have ev: "gigabyte_kbd_raw_event s 4 rd 4 =
        (if power bd = FB_BLANK_POWERDOWN then Inr (0, rd, s)
         else Inr (1, [0x03, 0x00, 0x00, rd ! 3],
                   s\<lparr>calls := calls s @ [Hid_report_raw_event [0x03, step, 0x00, rd ! 3]]\<rparr>))"
      using m off F4(2)
      by (simp add: rd gigabyte_kbd_raw_event_def Let_def HIDRAW_defs hid_report_raw_event_def)
    have diff: "{i. i < 4 \<and> ([0x03, step, 0x00, rd ! 3] ! i \<noteq> rd ! i \<or>
                         [0x03, 0x00, 0x00, rd ! 3] ! i \<noteq> rd ! i)} = {0, 1}"
      using bytes F4(2) by (auto simp add: rd nth_Cons' split: if_splits)
    from ev diff show ?thesis by simp
  qed
qed

theorem brightness_step_witness:
  "gigabyte_kbd_raw_event running_session 4 [0x04, 0x00, 0x00, 0x7D] 4 =
     Inr (1, [0x03, 0x00, 0x00, 0x7D],
          running_session\<lparr>calls := [Hid_report_raw_event [0x03, 0x70, 0x00, 0x7D]]\<rparr>) \<and>
   gigabyte_kbd_raw_event
       (running_session\<lparr>gigabyte_kbd_backlight_device := Some \<lparr>power = 4\<rparr>\<rparr>) 4
       [0x04, 0x00, 0x00, 0x7E] 4 =
     Inr (0, [0x04, 0x00, 0x00, 0x7E],
          running_session\<lparr>gigabyte_kbd_backlight_device := Some \<lparr>power = 4\<rparr>\<rparr>)"
proof -
  have a: "make_u32 ([0x04, 0x00, 0x00, 0x7D] ! 0) ([0x04, 0x00, 0x00, 0x7D] ! 1)
      ([0x04, 0x00, 0x00, 0x7D] ! 2) ([0x04, 0x00, 0x00, 0x7D] ! 3) = HIDRAW_FN_F3"
    by (simp add: make_u32_def HIDRAW_defs)
  have b: "make_u32 ([0x04, 0x00, 0x00, 0x7E] ! 0) ([0x04, 0x00, 0x00, 0x7E] ! 1)
      ([0x04, 0x00, 0x00, 0x7E] ! 2) ([0x04, 0x00, 0x00, 0x7E] ! 3) = HIDRAW_FN_F4"
    by (simp add: make_u32_def HIDRAW_defs)
  have l: "length [0x04 :: u8, 0x00, 0x00, 0x7D] = 4" "length [0x04 :: u8, 0x00, 0x00, 0x7E] = 4"
    by simp_all
  have on: "gigabyte_kbd_backlight_device running_session = Some \<lparr>power = 0\<rparr>"
    by (simp add: running_session_def)
  have off: "gigabyte_kbd_backlight_device
      (running_session\<lparr>gigabyte_kbd_backlight_device := Some \<lparr>power = 4\<rparr>\<rparr>) = Some \<lparr>power = 4\<rparr>"
    by simp
  show ?thesis
    using brightness_step [OF l(1) a _ on, where step = "0x70"]
      brightness_step [OF l(2) b _ off, where step = "0x6f"]
    by (simp add: running_session_def FB_BLANK_POWERDOWN_def)
qed


text \<open>
  Claim C2. With no backlight device (the pointer is NULL), the backlight-toggle code is
  passed through untouched, but the two brightness-step codes make
  \<open>gigabyte_kbd_raw_event\<close> call \<open>gigabyte_kbd_is_backlight_off\<close>, which
  dereferences the NULL pointer: the handling of the report faults.
\<close>

theorem brightness_step_without_backlight:
  assumes "gigabyte_kbd_backlight_device s = None"
  shows "gigabyte_kbd_raw_event s 4 [0x04, 0x00, 0x00, 0x7D] 4 = Inl NullDeref \<and>
         gigabyte_kbd_raw_event s 4 [0x04, 0x00, 0x00, 0x7E] 4 = Inl NullDeref \<and>
         gigabyte_kbd_raw_event s 4 [0x04, 0x00, 0x00, 0x80] 4 = Inr (0, [0x04, 0x00, 0x00, 0x80], s)"
  using assms
  by (simp add: gigabyte_kbd_raw_event_def Let_def HIDRAW_defs make_u32_def
      gigabyte_kbd_is_backlight_off_def)

theorem brightness_step_without_backlight_witness:
  "fst (gigabyte_kbd_probe bare_probe module_loaded) = 0 \<and>
   gigabyte_kbd_raw_event (snd (gigabyte_kbd_probe bare_probe module_loaded)) 4
     [0x04, 0x00, 0x00, 0x7D] 4 = Inl NullDeref \<and>
   gigabyte_kbd_raw_event (snd (gigabyte_kbd_probe bare_probe module_loaded)) 4
     [0x04, 0x00, 0x00, 0x7E] 4 = Inl NullDeref"
proof -
  have p: "gigabyte_kbd_probe bare_probe module_loaded =
      (0, module_loaded\<lparr>gigabyte_kbd_input_dev := Some 1, gigabyte_kbd_consumer_dev := Some 2,
            gigabyte_kbd_refcount := 1\<rparr>)"
    by (simp add: gigabyte_kbd_probe_def bare_probe_def module_loaded_def
        gigabyte_kbd_setup_input_dev_def)
  have n: "gigabyte_kbd_backlight_device (snd (gigabyte_kbd_probe bare_probe module_loaded)) = None"
    by (simp add: p) (simp add: module_loaded_def)
  from brightness_step_without_backlight [OF n] p show ?thesis
    by simp
qed

section \<open>The touchpad toggle\<close>

text \<open>
  Claim C3, as the code has it. From a touchpad bound to driver \<open>d\<close>, whatever the
  remembered driver was: one toggle unbinds the device and stores exactly \<open>d\<close> in
  \<open>gigabyte_kbd_touchpad_driver\<close>; a second toggle, the device still unbound, attaches
  exactly \<open>d\<close> again when \<open>device_driver_attach\<close> succeeds (and changes nothing when it
  fails). The remembered driver is not cleared: after the reattachment the field still
  holds \<open>d\<close>.
\<close>

theorem touchpad_toggle_twice:
  assumes "gigabyte_kbd_touchpad_device s = Some dev"
    and "driver dev = Some d"
  shows "\<exists>s1. gigabyte_kbd_touchpad_toggle_driver err s = Inr s1 \<and>
      s1 = s\<lparr>gigabyte_kbd_touchpad_driver := Some d,
              gigabyte_kbd_touchpad_device := Some (dev\<lparr>driver := None\<rparr>)\<rparr> \<and>
      gigabyte_kbd_touchpad_toggle_driver 0 s1 =
        Inr (s\<lparr>gigabyte_kbd_touchpad_driver := Some d,
                gigabyte_kbd_touchpad_device := Some (dev\<lparr>driver := Some d\<rparr>)\<rparr>) \<and>
      (err' \<noteq> 0 \<longrightarrow> gigabyte_kbd_touchpad_toggle_driver err' s1 = Inr s1)"
  using assms
  by (simp add: gigabyte_kbd_touchpad_toggle_driver_def device_release_driver_def
      device_driver_attach_def)

theorem touchpad_toggle_twice_witness:
  "gigabyte_kbd_touchpad_toggle_driver 0
     (running_session\<lparr>gigabyte_kbd_touchpad_driver := None\<rparr>) =
     Inr (running_session\<lparr>gigabyte_kbd_touchpad_device := Some \<lparr>driver = None\<rparr>\<rparr>) \<and>
   gigabyte_kbd_touchpad_toggle_driver 0
     (running_session\<lparr>gigabyte_kbd_touchpad_device := Some \<lparr>driver = None\<rparr>\<rparr>) =
     Inr running_session"
proof -
  have a: "gigabyte_kbd_touchpad_device (running_session\<lparr>gigabyte_kbd_touchpad_driver := None\<rparr>)
      = Some \<lparr>driver = Some 5\<rparr>"
    by (simp add: running_session_def)
  have b: "driver \<lparr>driver = Some 5\<rparr> = Some 5"
    by simp
  from touchpad_toggle_twice [OF a b, where err = 0 and err' = 1] show ?thesis
    by (simp add: running_session_def)
qed

text \<open>
  The claim as the spec words it fails: starting bound to driver 5 with nothing
  remembered, there is no run of two toggles after which the device is bound to
  driver 5 and the remembered-driver field is empty.
\<close>

theorem touchpad_memory_not_cleared:
  "\<not> (\<exists>s1 s2.
      gigabyte_kbd_touchpad_toggle_driver 0
        (running_session\<lparr>gigabyte_kbd_touchpad_driver := None\<rparr>) = Inr s1 \<and>
      gigabyte_kbd_touchpad_toggle_driver 0 s1 = Inr s2 \<and>
      gigabyte_kbd_touchpad_device s2 = Some \<lparr>driver = Some 5\<rparr> \<and>
      gigabyte_kbd_touchpad_driver s2 = None)"
  by (auto simp add: gigabyte_kbd_touchpad_toggle_driver_def device_release_driver_def
      device_driver_attach_def running_session_def)


section \<open>The work queue\<close>

lemma count_list_distinct:
  "distinct xs \<Longrightarrow> count_list xs x = (if x \<in> set xs then 1 else 0)"
  by (induction xs) auto

lemma pending_emit_key: "pending (gigabyte_kbd_emit_key input k s) = pending s"
  by (simp add: gigabyte_kbd_emit_key_def input_report_key_def input_sync_def
      split: option.split)

lemma pending_emit_volume: "pending (gigabyte_kbd_emit_volume k v s) = pending s"
  by (simp add: gigabyte_kbd_emit_volume_def input_report_key_def input_sync_def
      split: option.split)

lemma pending_hid_report_raw_event: "pending (hid_report_raw_event rd n s) = pending s"
  by (simp add: hid_report_raw_event_def)

lemma distinct_schedule_work:
  "distinct (pending s) \<Longrightarrow> distinct (pending (schedule_work w s))"
  by (simp add: schedule_work_def)

lemma raw_event_pending:
  assumes "gigabyte_kbd_raw_event s report_id rd sz = Inr (r, rd', s')"
  shows "pending s' = pending s
    \<or> s' = schedule_work gigabyte_kbd_backlight_toggle_work s
    \<or> s' = schedule_work gigabyte_kbd_touchpad_toggle_driver_work s"
  using assms
  by (auto simp add: gigabyte_kbd_raw_event_def Let_def pending_emit_key pending_emit_volume
      pending_hid_report_raw_event split: if_splits sum.splits)

lemma worker_step_pending:
  assumes "worker_step err s = Inr (w, s')"
  shows "w = (case pending s of [] \<Rightarrow> None | x # xs \<Rightarrow> Some x) \<and> pending s' = tl (pending s)"
  using assms
  by (auto simp add: worker_step_def gigabyte_kbd_backlight_toggle_def
      gigabyte_kbd_touchpad_toggle_driver_def
      split: list.splits work.splits sum.splits option.splits if_splits)

lemma run_step_distinct:
  assumes "run_step x s = Inr s'" and "distinct (pending s)"
  shows "distinct (pending s')"
proof (cases x)
  case (Dispatch report_id rd sz)
  then obtain r rd' where "gigabyte_kbd_raw_event s report_id rd sz = Inr (r, rd', s')"
    using assms(1) by (auto split: sum.splits)
  from raw_event_pending [OF this] assms(2) show ?thesis
    by (auto simp add: distinct_schedule_work)
next
  case (Worker err)
  then obtain w where "worker_step err s = Inr (w, s')"
    using assms(1) by (auto split: sum.splits)
  from worker_step_pending [OF this] assms(2) show ?thesis
    by (simp add: distinct_tl)
qed

lemma run_steps_distinct:
  "run_steps xs s = Inr s' \<Longrightarrow> distinct (pending s) \<Longrightarrow> distinct (pending s')"
proof (induction xs arbitrary: s)
  case Nil
  then show ?case by simp
next
  case (Cons x xs)
  then obtain s1 where s1: "run_step x s = Inr s1" "run_steps xs s1 = Inr s'"
    by (auto split: sum.splits)
  from run_step_distinct [OF s1(1) Cons.prems(2)] Cons.IH [OF s1(2)] show ?case
    by simp
qed


lemma backlight_emit_key:
  "gigabyte_kbd_backlight_device (gigabyte_kbd_emit_key input k s) = gigabyte_kbd_backlight_device s"
  by (simp add: gigabyte_kbd_emit_key_def input_report_key_def input_sync_def
      split: option.split)

lemma backlight_emit_volume:
  "gigabyte_kbd_backlight_device (gigabyte_kbd_emit_volume k v s) = gigabyte_kbd_backlight_device s"
  by (simp add: gigabyte_kbd_emit_volume_def input_report_key_def input_sync_def
      split: option.split)

lemma raw_event_backlight:
  assumes "gigabyte_kbd_raw_event s report_id rd sz = Inr (r, rd', s')"
  shows "gigabyte_kbd_backlight_device s' = gigabyte_kbd_backlight_device s"
  using assms
  by (auto simp add: gigabyte_kbd_raw_event_def Let_def backlight_emit_key backlight_emit_volume
      hid_report_raw_event_def schedule_work_def split: if_splits sum.splits)

lemma raw_event_pending_mono:
  assumes "gigabyte_kbd_raw_event s report_id rd sz = Inr (r, rd', s')"
  shows "set (pending s) \<subseteq> set (pending s')"
  using raw_event_pending [OF assms] by (auto simp add: schedule_work_def)

lemma dispatches_keep:
  assumes "run_steps steps s = Inr s'"
    and "\<forall>x \<in> set steps. \<exists>report_id rd sz. x = Dispatch report_id rd sz"
  shows "gigabyte_kbd_backlight_device s' = gigabyte_kbd_backlight_device s
    \<and> set (pending s) \<subseteq> set (pending s')"
  using assms
proof (induction steps arbitrary: s)
  case Nil
  then show ?case by simp
next
  case (Cons x xs)
  obtain report_id rd sz where x: "x = Dispatch report_id rd sz"
    using Cons.prems(2) by auto
  obtain s1 where s1: "run_step x s = Inr s1" "run_steps xs s1 = Inr s'"
    using Cons.prems(1) by (auto split: sum.splits)
  obtain r rd' where e: "gigabyte_kbd_raw_event s report_id rd sz = Inr (r, rd', s1)"
    using s1(1) by (auto simp add: x split: sum.splits)
  have "gigabyte_kbd_backlight_device s' = gigabyte_kbd_backlight_device s1
    \<and> set (pending s1) \<subseteq> set (pending s')"
    using Cons.prems(2) by (intro Cons.IH [OF s1(2)]) simp
  with raw_event_backlight [OF e] raw_event_pending_mono [OF e] show ?case
    by auto
qed

lemma submitted_stays_pending:
  assumes "run_steps steps s = Inr s'"
    and "\<forall>x \<in> set steps. \<exists>report_id rd sz. x = Dispatch report_id rd sz"
    and "Dispatch 4 rd 4 \<in> set steps"
    and "4 \<le> length rd"
    and "make_u32 (rd ! 0) (rd ! 1) (rd ! 2) (rd ! 3) = HIDRAW_FN_F6"
    and "gigabyte_kbd_backlight_device s \<noteq> None"
  shows "gigabyte_kbd_backlight_toggle_work \<in> set (pending s')"
  using assms(1,2,3,6)
proof (induction steps arbitrary: s)
  case Nil
  then show ?case by simp
next
  case (Cons x xs)
  obtain report_id rd0 sz where x: "x = Dispatch report_id rd0 sz"
    using Cons.prems(2) by auto
  obtain s1 where s1: "run_step x s = Inr s1" "run_steps xs s1 = Inr s'"
    using Cons.prems(1) by (auto split: sum.splits)
  obtain r rd' where e: "gigabyte_kbd_raw_event s report_id rd0 sz = Inr (r, rd', s1)"
    using s1(1) by (auto simp add: x split: sum.splits)
  have rest: "\<forall>x \<in> set xs. \<exists>report_id rd sz. x = Dispatch report_id rd sz"
    using Cons.prems(2) by simp
  have b1: "gigabyte_kbd_backlight_device s1 \<noteq> None"
    using raw_event_backlight [OF e] Cons.prems(4) by simp
  show ?case
  proof (cases "x = Dispatch 4 rd 4")
    case True
    have "gigabyte_kbd_raw_event s 4 rd 4 =
        Inr (0, rd, schedule_work gigabyte_kbd_backlight_toggle_work s)"
      using assms(4,5) Cons.prems(4)
      by (simp add: gigabyte_kbd_raw_event_def Let_def HIDRAW_defs)
    then have "s1 = schedule_work gigabyte_kbd_backlight_toggle_work s"
      using e True x by simp
    then have "gigabyte_kbd_backlight_toggle_work \<in> set (pending s1)"
      by (simp add: schedule_work_def)
    then show ?thesis
      using dispatches_keep [OF s1(2) rest] by auto
  next
    case False
    then have "Dispatch 4 rd 4 \<in> set xs"
      using Cons.prems(3) by auto
    from Cons.IH [OF s1(2) rest this b1] show ?thesis .
  qed
qed

text \<open>
  Claim C5. With a backlight device present and at most one instance of each work item
  pending, two dispatches of the backlight-toggle code in a row both pass through and
  leave exactly one instance of the backlight work pending; if nothing was pending
  before, the worker then executes the backlight toggle once and finds nothing more to
  execute. More generally, after any run of dispatches without a worker step in which
  the code was dispatched at least once, exactly one instance is pending. The worker
  executes the oldest pending instance and removes it, so every pending instance is
  executed once. Along every trace of dispatches and worker steps, no work item is ever
  pending twice.
\<close>

theorem work_coalesced:
  assumes "gigabyte_kbd_backlight_device s = Some bd"
    and "4 \<le> length rd"
    and "make_u32 (rd ! 0) (rd ! 1) (rd ! 2) (rd ! 3) = HIDRAW_FN_F6"
    and "distinct (pending s)"
  shows "(\<exists>s1 s2.
            gigabyte_kbd_raw_event s 4 rd 4 = Inr (0, rd, s1) \<and>
            gigabyte_kbd_raw_event s1 4 rd 4 = Inr (0, rd, s2) \<and>
            count_list (pending s2) gigabyte_kbd_backlight_toggle_work = 1 \<and>
            (pending s = [] \<longrightarrow>
               (\<exists>s3. worker_step err s2 = Inr (Some gigabyte_kbd_backlight_toggle_work, s3) \<and>
                     pending s3 = [] \<and>
                     worker_step err s3 = Inr (None, s3)))) \<and>
         (\<forall>steps s'.
            (\<forall>x \<in> set steps. \<exists>report_id rd sz. x = Dispatch report_id rd sz) \<and>
            Dispatch 4 rd 4 \<in> set steps \<and> run_steps steps s = Inr s' \<longrightarrow>
            count_list (pending s') gigabyte_kbd_backlight_toggle_work = 1) \<and>
         (\<forall>e t w t'. worker_step e t = Inr (w, t') \<longrightarrow>
            w = (case pending t of [] \<Rightarrow> None | x # xs \<Rightarrow> Some x) \<and>
            pending t' = tl (pending t)) \<and>
         (\<forall>steps s' w. run_steps steps s = Inr s' \<longrightarrow> count_list (pending s') w \<le> 1)"
proof -
  let ?w = gigabyte_kbd_backlight_toggle_work
  let ?s1 = "schedule_work ?w s"
  let ?s2 = "schedule_work ?w ?s1"
  have e1: "gigabyte_kbd_raw_event s 4 rd 4 = Inr (0, rd, ?s1)"
    using assms(1,2,3) by (simp add: gigabyte_kbd_raw_event_def Let_def HIDRAW_defs)
  have b1: "gigabyte_kbd_backlight_device ?s1 = Some bd"
    using assms(1) by (simp add: schedule_work_def)
  have e2: "gigabyte_kbd_raw_event ?s1 4 rd 4 = Inr (0, rd, ?s2)"
    using b1 assms(2,3) by (simp add: gigabyte_kbd_raw_event_def Let_def HIDRAW_defs)
  have p2: "pending ?s2 = (if ?w \<in> set (pending s) then pending s else pending s @ [?w])"
    by (simp add: schedule_work_def)
  have c: "count_list (pending ?s2) ?w = 1"
    using assms(4) by (simp add: p2 count_list_distinct)
  have w: "pending s = [] \<longrightarrow>
      (\<exists>s3. worker_step err ?s2 = Inr (Some ?w, s3) \<and> pending s3 = [] \<and>
            worker_step err s3 = Inr (None, s3))"
    using assms(1)
    by (simp add: worker_step_def schedule_work_def gigabyte_kbd_backlight_toggle_def
        gigabyte_kbd_is_backlight_off_def)
  have inv: "\<forall>steps s' w. run_steps steps s = Inr s' \<longrightarrow> count_list (pending s') w \<le> 1"
  proof (intro allI impI)
    fix steps s' w
    assume "run_steps steps s = Inr s'"
    from run_steps_distinct [OF this assms(4)] show "count_list (pending s') w \<le> 1"
      by (simp add: count_list_distinct)
  qed
  have many: "\<forall>steps s'.
      (\<forall>x \<in> set steps. \<exists>report_id rd sz. x = Dispatch report_id rd sz) \<and>
      Dispatch 4 rd 4 \<in> set steps \<and> run_steps steps s = Inr s' \<longrightarrow>
      count_list (pending s') ?w = 1"
  proof (intro allI impI, elim conjE)
    fix steps s'
    assume d: "\<forall>x \<in> set steps. \<exists>report_id rd sz. x = Dispatch report_id rd sz"
      and m: "Dispatch 4 rd 4 \<in> set steps"
      and r: "run_steps steps s = Inr s'"
    have "gigabyte_kbd_backlight_device s \<noteq> None"
      using assms(1) by simp
    from submitted_stays_pending [OF r d m assms(2,3) this] run_steps_distinct [OF r assms(4)]
    show "count_list (pending s') ?w = 1"
      by (simp add: count_list_distinct)
  qed
  from e1 e2 c w many worker_step_pending inv show ?thesis
    by blast
qed

theorem work_coalesced_witness:
  "\<exists>s1 s2.
     gigabyte_kbd_raw_event running_session 4 [0x04, 0x00, 0x00, 0x80] 4 =
       Inr (0, [0x04, 0x00, 0x00, 0x80], s1) \<and>
     gigabyte_kbd_raw_event s1 4 [0x04, 0x00, 0x00, 0x80] 4 =
       Inr (0, [0x04, 0x00, 0x00, 0x80], s2) \<and>
     count_list (pending s2) gigabyte_kbd_backlight_toggle_work = 1 \<and>
     (\<exists>s3. worker_step 0 s2 = Inr (Some gigabyte_kbd_backlight_toggle_work, s3) \<and>
           pending s3 = [] \<and> worker_step 0 s3 = Inr (None, s3))"
proof -
  have b: "gigabyte_kbd_backlight_device running_session = Some \<lparr>power = 0\<rparr>"
    by (simp add: running_session_def)
  have l: "4 \<le> length [0x04 :: u8, 0x00, 0x00, 0x80]"
    by simp
  have c: "make_u32 ([0x04, 0x00, 0x00, 0x80] ! 0) ([0x04, 0x00, 0x00, 0x80] ! 1)
      ([0x04, 0x00, 0x00, 0x80] ! 2) ([0x04, 0x00, 0x00, 0x80] ! 3) = HIDRAW_FN_F6"
    by (simp add: make_u32_def HIDRAW_defs)
  have d: "distinct (pending running_session)"
    by (simp add: running_session_def)
  have p: "pending running_session = []"
    by (simp add: running_session_def)
  from work_coalesced [OF b l c d, where err = 0] p show ?thesis
    by blast
qed

section \<open>The reference count of the shared input device\<close>

text \<open>
  A probe that gets past \<open>hid_hw_start\<close> attaches: on the device pointer and the
  reference count it acts as \<open>gigabyte_kbd_setup_input_dev\<close> does, and it returns 0
  whether or not the device could be created.
\<close>

lemma probe_attaches:
  assumes "priv_allocated env" and "hid_parse_ret env = 0" and "hid_hw_start_ret env = 0"
  shows "fst (gigabyte_kbd_probe env s) = 0"
    and "gigabyte_kbd_input_dev (snd (gigabyte_kbd_probe env s)) =
      gigabyte_kbd_input_dev (sink_step (Attach (input_allocated env) (input_register_ret env)) s)"
    and "gigabyte_kbd_refcount (snd (gigabyte_kbd_probe env s)) =
      gigabyte_kbd_refcount (sink_step (Attach (input_allocated env) (input_register_ret env)) s)"
  using assms
  by (auto simp add: gigabyte_kbd_probe_def gigabyte_kbd_setup_input_dev_def Let_def
      split: option.split prod.split)

lemma sint_inc:
  fixes w :: "32 word"
  assumes "sint w < 2 ^ 31 - 1" and "- 1 \<le> sint w"
  shows "sint (w + 1) = sint w + 1"
  using assms by (simp add: sint_word_ariths signed_take_bit_int_eq_self)

lemma sint_dec:
  fixes w :: "32 word"
  assumes "0 < sint w"
  shows "sint (w - 1) = sint w - 1"
proof -
  have "sint w < 2 ^ 31"
    using sint_lt [of w] by simp
  then show ?thesis
    using assms by (simp add: sint_word_ariths signed_take_bit_int_eq_self)
qed

lemma sless_0_iff: "(0 <s (w :: 32 word)) = (0 < sint w)"
  by (simp add: word_sless_alt)

lemma sint_0_iff: "(sint (w :: 32 word) = 0) = (w = 0)"
  by (simp add: signed_eq_0_iff)

lemma sink_run_append: "sink_run (xs @ ys) s = sink_run ys (sink_run xs s)"
  by (induction xs arbitrary: s) simp_all

lemma remove_noop:
  "\<not> 0 <s gigabyte_kbd_refcount s \<Longrightarrow> gigabyte_kbd_remove s = s"
  by (simp add: gigabyte_kbd_remove_def)

lemma detach_noop:
  "\<not> 0 <s gigabyte_kbd_refcount s \<Longrightarrow> sink_run (replicate j Detach) s = s"
  by (induction j) (simp_all add: remove_noop)

lemma attach_existing:
  assumes "gigabyte_kbd_input_dev s = Some p"
  shows "gigabyte_kbd_setup_input_dev alloc reg s =
    (0, s\<lparr>gigabyte_kbd_refcount := gigabyte_kbd_refcount s + 1\<rparr>)"
  using assms by (simp add: gigabyte_kbd_setup_input_dev_def)

lemma attach_many:
  assumes "gigabyte_kbd_input_dev s = Some p" and "Detach \<notin> set ops"
  shows "sink_run ops s =
    s\<lparr>gigabyte_kbd_refcount := gigabyte_kbd_refcount s + of_nat (length ops)\<rparr>"
  using assms
proof (induction ops arbitrary: s)
  case Nil
  then show ?case by simp
next
  case (Cons x xs)
  then obtain alloc reg where x: "x = Attach alloc reg"
    by (cases x) auto
  let ?s = "s\<lparr>gigabyte_kbd_refcount := gigabyte_kbd_refcount s + 1\<rparr>"
  have step: "sink_step x s = ?s"
    using Cons.prems(1) by (simp add: x attach_existing)
  have "sink_run xs ?s =
      ?s\<lparr>gigabyte_kbd_refcount := gigabyte_kbd_refcount ?s + of_nat (length xs)\<rparr>"
    using Cons.prems by (intro Cons.IH) simp_all
  then show ?case
    by (simp add: step add.assoc)
qed

lemma attach_inv:
  assumes "sink_inv n s" and "n < 2 ^ 31 - 1"
  shows "sink_inv (Suc n) (sink_step (Attach alloc reg) s)"
proof (cases "gigabyte_kbd_input_dev s")
  case None
  then show ?thesis
    using assms(1)
    by (simp add: sink_inv_def gigabyte_kbd_setup_input_dev_def split: option.split)
next
  case (Some p)
  have b: "1 \<le> sint (gigabyte_kbd_refcount s)" "sint (gigabyte_kbd_refcount s) \<le> int n"
    using assms(1) Some by (simp_all add: sink_inv_def)
  have "sint (gigabyte_kbd_refcount s + 1) = sint (gigabyte_kbd_refcount s) + 1"
    using b assms(2) by (intro sint_inc) simp_all
  then show ?thesis
    using b Some by (simp add: sink_inv_def attach_existing)
qed

lemma detach_inv:
  assumes "sink_inv n s"
  shows "sink_inv (n - 1) (sink_step Detach s)"
proof (cases "gigabyte_kbd_input_dev s")
  case None
  then show ?thesis
    using assms by (simp add: sink_inv_def gigabyte_kbd_remove_def)
next
  case (Some p)
  have b: "1 \<le> sint (gigabyte_kbd_refcount s)" "sint (gigabyte_kbd_refcount s) \<le> int n"
    using assms Some by (simp_all add: sink_inv_def)
  have d: "sint (gigabyte_kbd_refcount s - 1) = sint (gigabyte_kbd_refcount s) - 1"
    using b by (intro sint_dec) simp
  have z: "(gigabyte_kbd_refcount s - 1 = 0) = (sint (gigabyte_kbd_refcount s) = 1)"
    using d sint_0_iff [of "gigabyte_kbd_refcount s - 1"] by auto
  show ?thesis
    using b Some d z
    by (auto simp add: sink_inv_def gigabyte_kbd_remove_def sless_0_iff Let_def)
qed

lemma sink_inv_mono: "sink_inv n s \<Longrightarrow> n \<le> m \<Longrightarrow> sink_inv m s"
  by (auto simp add: sink_inv_def)

lemma sink_run_inv:
  assumes "sink_inv n s" and "n + attaches ops < 2 ^ 31"
  shows "sink_inv (n + attaches ops) (sink_run ops s)"
  using assms
proof (induction ops arbitrary: n s)
  case Nil
  then show ?case by simp
next
  case (Cons x xs)
  show ?case
  proof (cases x)
    case (Attach alloc reg)
    have "n < 2 ^ 31 - 1"
      using Cons.prems(2) by (simp add: Attach)
    with Cons.prems(1) have "sink_inv (Suc n) (sink_step x s)"
      unfolding Attach by (rule attach_inv)
    then have "sink_inv (Suc n + attaches xs) (sink_run xs (sink_step x s))"
      using Cons.prems(2) by (intro Cons.IH) (simp_all add: Attach)
    then show ?thesis
      by (simp add: Attach)
  next
    case Detach
    have "sink_inv n (sink_step x s)"
      using detach_inv [OF Cons.prems(1)] by (auto simp add: Detach intro: sink_inv_mono)
    then have "sink_inv (n + attaches xs) (sink_run xs (sink_step x s))"
      using Cons.prems(2) by (intro Cons.IH) (simp_all add: Detach)
    then show ?thesis
      by (simp add: Detach)
  qed
qed

lemma detach_all:
  assumes "sink_inv n s" and "n \<le> j"
  shows "gigabyte_kbd_input_dev (sink_run (replicate j Detach) s) = None
    \<and> gigabyte_kbd_refcount (sink_run (replicate j Detach) s) = 0"
  using assms
proof (induction j arbitrary: n s)
  case 0
  then show ?case
    by (auto simp add: sink_inv_def split: if_splits)
next
  case (Suc j)
  have "sink_inv (n - 1) (sink_step Detach s)"
    using Suc.prems(1) by (rule detach_inv)
  moreover have "n - 1 \<le> j"
    using Suc.prems(2) by simp
  ultimately show ?case
    using Suc.IH [of "n - 1" "sink_step Detach s"] by simp
qed

lemma detach_some:
  assumes "gigabyte_kbd_input_dev s = Some p" and "int j < sint (gigabyte_kbd_refcount s)"
  shows "sink_run (replicate j Detach) s =
    s\<lparr>gigabyte_kbd_refcount := gigabyte_kbd_refcount s - of_nat j\<rparr>"
  using assms
proof (induction j arbitrary: s)
  case 0
  then show ?case by simp
next
  case (Suc j)
  let ?s = "s\<lparr>gigabyte_kbd_refcount := gigabyte_kbd_refcount s - 1\<rparr>"
  have pos: "0 < sint (gigabyte_kbd_refcount s)" "1 < sint (gigabyte_kbd_refcount s)"
    using Suc.prems(2) by simp_all
  have d: "sint (gigabyte_kbd_refcount s - 1) = sint (gigabyte_kbd_refcount s) - 1"
    using pos(1) by (rule sint_dec)
  have nz: "gigabyte_kbd_refcount s - 1 \<noteq> 0"
    using d pos(2) sint_0_iff [of "gigabyte_kbd_refcount s - 1"] by auto
  have step: "gigabyte_kbd_remove s = ?s"
    using pos(1) nz by (simp add: gigabyte_kbd_remove_def sless_0_iff Let_def)
  have "sink_run (replicate j Detach) ?s =
      ?s\<lparr>gigabyte_kbd_refcount := gigabyte_kbd_refcount ?s - of_nat j\<rparr>"
    using Suc.prems d by (intro Suc.IH) simp_all
  then show ?case
    by (simp add: step diff_diff_eq)
qed

lemma registered_if_positive:
  "0 <s gigabyte_kbd_refcount (sink_run ops module_loaded) \<Longrightarrow>
     gigabyte_kbd_input_dev (sink_run ops module_loaded) \<noteq> None"
proof -
  have step: "\<And>x s. (gigabyte_kbd_input_dev s = None \<longrightarrow> gigabyte_kbd_refcount s = 0) \<Longrightarrow>
      gigabyte_kbd_input_dev (sink_step x s) = None \<longrightarrow> gigabyte_kbd_refcount (sink_step x s) = 0"
    subgoal for x s
      by (cases x)
        (auto simp add: gigabyte_kbd_setup_input_dev_def gigabyte_kbd_remove_def Let_def
          split: option.splits if_splits)
    done
  have run: "\<And>s. (gigabyte_kbd_input_dev s = None \<longrightarrow> gigabyte_kbd_refcount s = 0) \<Longrightarrow>
      gigabyte_kbd_input_dev (sink_run ops s) = None \<longrightarrow> gigabyte_kbd_refcount (sink_run ops s) = 0"
  proof (induction ops)
    case Nil
    then show ?case by simp
  next
    case (Cons x xs)
    from Cons.IH [OF step [OF Cons.prems]] show ?case by simp
  qed
  have "gigabyte_kbd_input_dev module_loaded = None \<longrightarrow> gigabyte_kbd_refcount module_loaded = 0"
    by (simp add: module_loaded_def)
  from run [OF this] show "0 <s gigabyte_kbd_refcount (sink_run ops module_loaded) \<Longrightarrow>
     gigabyte_kbd_input_dev (sink_run ops module_loaded) \<noteq> None"
    by (auto simp add: word_sless_alt)
qed


lemma sint_of_nat_32:
  assumes "n < 2 ^ 31"
  shows "sint (of_nat n :: 32 word) = int n"
proof -
  have "int n < 2 ^ 31"
    using assms by (simp flip: of_nat_less_iff)
  then show ?thesis
    by (simp add: signed_of_nat signed_take_bit_int_eq_self)
qed

lemma first_attach:
  "sink_step (Attach (Some p) 0) module_loaded =
     module_loaded\<lparr>gigabyte_kbd_input_dev := Some p, gigabyte_kbd_refcount := 1\<rparr>"
  by (simp add: gigabyte_kbd_setup_input_dev_def module_loaded_def)

lemma first_attach_snd:
  "snd (gigabyte_kbd_setup_input_dev (Some p) 0 module_loaded) =
     module_loaded\<lparr>gigabyte_kbd_input_dev := Some p, gigabyte_kbd_refcount := 1\<rparr>"
  using first_attach [of p] by simp

lemma attach_wraps:
  "sink_run (replicate (2 ^ 31) (Attach (Some 1) 0)) module_loaded =
     module_loaded\<lparr>gigabyte_kbd_input_dev := Some 1, gigabyte_kbd_refcount := 0x80000000\<rparr>"
proof -
  let ?s = "module_loaded\<lparr>gigabyte_kbd_input_dev := Some 1, gigabyte_kbd_refcount := 1\<rparr>"
  have r: "replicate (2 ^ 31) (Attach (Some 1) 0) =
      Attach (Some 1) 0 # replicate 2147483647 (Attach (Some 1) 0)"
    by (simp flip: replicate_Suc)
  have "sink_run (replicate (2 ^ 31) (Attach (Some 1) 0)) module_loaded =
      sink_run (replicate 2147483647 (Attach (Some 1) 0)) ?s"
    unfolding r sink_run.simps first_attach by (rule refl)
  also have "\<dots> = ?s\<lparr>gigabyte_kbd_refcount := gigabyte_kbd_refcount ?s
        + of_nat (length (replicate 2147483647 (Attach (Some 1) 0)))\<rparr>"
    by (rule attach_many [where p = 1]) simp_all
  also have "\<dots> = module_loaded\<lparr>gigabyte_kbd_input_dev := Some 1,
      gigabyte_kbd_refcount := 0x80000000\<rparr>"
    by simp
  finally show ?thesis .
qed

lemma attach_nonneg:
  assumes "0 \<le> sint (gigabyte_kbd_refcount s)" and "sint (gigabyte_kbd_refcount s) < 2 ^ 31 - 1"
  shows "0 \<le> sint (gigabyte_kbd_refcount (snd (gigabyte_kbd_setup_input_dev alloc reg s)))"
    and "sint (gigabyte_kbd_refcount (snd (gigabyte_kbd_setup_input_dev alloc reg s)))
      \<le> sint (gigabyte_kbd_refcount s) + 1"
proof -
  have i: "sint (gigabyte_kbd_refcount s + 1) = sint (gigabyte_kbd_refcount s) + 1"
    using assms by (intro sint_inc) simp_all
  show "0 \<le> sint (gigabyte_kbd_refcount (snd (gigabyte_kbd_setup_input_dev alloc reg s)))"
    using assms(1) i by (simp add: gigabyte_kbd_setup_input_dev_def split: option.split)
  show "sint (gigabyte_kbd_refcount (snd (gigabyte_kbd_setup_input_dev alloc reg s)))
      \<le> sint (gigabyte_kbd_refcount s) + 1"
    using assms(1) i by (simp add: gigabyte_kbd_setup_input_dev_def split: option.split)
qed

lemma detach_nonneg:
  assumes "0 \<le> sint (gigabyte_kbd_refcount s)"
  shows "0 \<le> sint (gigabyte_kbd_refcount (gigabyte_kbd_remove s))"
    and "sint (gigabyte_kbd_refcount (gigabyte_kbd_remove s)) \<le> sint (gigabyte_kbd_refcount s)"
proof -
  have d: "0 < sint (gigabyte_kbd_refcount s) \<Longrightarrow>
      sint (gigabyte_kbd_refcount s - 1) = sint (gigabyte_kbd_refcount s) - 1"
    by (rule sint_dec)
  show "0 \<le> sint (gigabyte_kbd_refcount (gigabyte_kbd_remove s))"
    using assms d by (simp add: gigabyte_kbd_remove_def sless_0_iff Let_def)
  show "sint (gigabyte_kbd_refcount (gigabyte_kbd_remove s)) \<le> sint (gigabyte_kbd_refcount s)"
    using assms d by (simp add: gigabyte_kbd_remove_def sless_0_iff Let_def)
qed

lemma attaches_below_max_take:
  "attaches_below_max ops s \<Longrightarrow> attaches_below_max (take n ops) s"
proof (induction ops arbitrary: s n)
  case Nil
  then show ?case by simp
next
  case (Cons x xs)
  show ?case
  proof (cases n)
    case 0
    then show ?thesis by simp
  next
    case (Suc m)
    with Cons show ?thesis
      by (cases x) simp_all
  qed
qed

lemma sink_run_nonneg:
  assumes "attaches_below_max ops s" and "0 \<le> sint (gigabyte_kbd_refcount s)"
  shows "0 \<le> sint (gigabyte_kbd_refcount (sink_run ops s)) \<and>
    sint (gigabyte_kbd_refcount (sink_run ops s))
      \<le> sint (gigabyte_kbd_refcount s) + int (attaches ops)"
  using assms
proof (induction ops arbitrary: s)
  case Nil
  then show ?case by simp
next
  case (Cons x xs)
  show ?case
  proof (cases x)
    case (Attach alloc reg)
    let ?s = "snd (gigabyte_kbd_setup_input_dev alloc reg s)"
    have m: "sint (gigabyte_kbd_refcount s) < 2 ^ 31 - 1" and r: "attaches_below_max xs ?s"
      using Cons.prems(1) by (simp_all add: Attach)
    from Cons.IH [OF r attach_nonneg(1) [OF Cons.prems(2) m]]
      attach_nonneg(2) [OF Cons.prems(2) m, of alloc reg]
    show ?thesis
      by (simp add: Attach)
  next
    case Detach
    have r: "attaches_below_max xs (gigabyte_kbd_remove s)"
      using Cons.prems(1) by (simp add: Detach)
    from Cons.IH [OF r detach_nonneg(1) [OF Cons.prems(2)]] detach_nonneg(2) [OF Cons.prems(2)]
    show ?thesis
      by (simp add: Detach)
  qed
qed

lemma attach_detach_pairs:
  "attaches_below_max (concat (replicate k [Attach (Some 1) 0, Detach])) module_loaded \<and>
   sink_run (concat (replicate k [Attach (Some 1) 0, Detach])) module_loaded = module_loaded"
proof (induction k)
  case 0
  then show ?case by simp
next
  case (Suc k)
  have one: "gigabyte_kbd_remove (snd (gigabyte_kbd_setup_input_dev (Some 1) 0 module_loaded))
      = module_loaded"
    by (simp add: gigabyte_kbd_setup_input_dev_def gigabyte_kbd_remove_def module_loaded_def
        word_sless_alt)
  have z: "sint (gigabyte_kbd_refcount module_loaded) < 2 ^ 31 - 1"
    by (simp add: module_loaded_def)
  from Suc one z show ?case
    by simp
qed

text \<open>
  Claim C10, as the code has it. Starting from the freshly loaded module, along every
  sequence of attaches and detaches in which no attach is made while the reference count
  stands at its largest value 2^31 - 1, the count is never negative, in the final state
  and in every state on the way (and it is never above the number of attaches). In any
  state with a count that is not negative, a detach leaves it so, and so does an attach
  made below the largest value. A detach at reference count zero, for example after the
  creation of the device failed in the attach, leaves the whole state as it is.
\<close>

theorem refcount_never_negative:
  assumes "attaches_below_max ops module_loaded"
  shows "(\<forall>n. 0 \<le> sint (gigabyte_kbd_refcount (sink_run (take n ops) module_loaded))) \<and>
         0 \<le> sint (gigabyte_kbd_refcount (sink_run ops module_loaded)) \<and>
         sint (gigabyte_kbd_refcount (sink_run ops module_loaded)) \<le> int (attaches ops) \<and>
         (0 \<le> sint (gigabyte_kbd_refcount s) \<longrightarrow>
            0 \<le> sint (gigabyte_kbd_refcount (gigabyte_kbd_remove s)) \<and>
            (sint (gigabyte_kbd_refcount s) < 2 ^ 31 - 1 \<longrightarrow>
               0 \<le> sint (gigabyte_kbd_refcount
                          (snd (gigabyte_kbd_setup_input_dev alloc reg s))))) \<and>
         (gigabyte_kbd_refcount s = 0 \<longrightarrow> gigabyte_kbd_remove s = s)"
proof -
  have z: "0 \<le> sint (gigabyte_kbd_refcount module_loaded)"
    "sint (gigabyte_kbd_refcount module_loaded) = 0"
    by (simp_all add: module_loaded_def)
  have every: "\<forall>n. 0 \<le> sint (gigabyte_kbd_refcount (sink_run (take n ops) module_loaded))"
    using sink_run_nonneg [OF attaches_below_max_take [OF assms] z(1)] by blast
  have final: "0 \<le> sint (gigabyte_kbd_refcount (sink_run ops module_loaded)) \<and>
      sint (gigabyte_kbd_refcount (sink_run ops module_loaded)) \<le> int (attaches ops)"
    using sink_run_nonneg [OF assms z(1)] z(2) by simp
  have step: "0 \<le> sint (gigabyte_kbd_refcount s) \<longrightarrow>
      0 \<le> sint (gigabyte_kbd_refcount (gigabyte_kbd_remove s)) \<and>
      (sint (gigabyte_kbd_refcount s) < 2 ^ 31 - 1 \<longrightarrow>
         0 \<le> sint (gigabyte_kbd_refcount (snd (gigabyte_kbd_setup_input_dev alloc reg s))))"
    using detach_nonneg(1) [of s] attach_nonneg(1) [of s alloc reg] by blast
  have noop: "gigabyte_kbd_refcount s = 0 \<longrightarrow> gigabyte_kbd_remove s = s"
    by (simp add: gigabyte_kbd_remove_def)
  from every final step noop show ?thesis
    by blast
qed

theorem refcount_never_negative_witness:
  "0 \<le> sint (gigabyte_kbd_refcount
       (sink_run (concat (replicate (2 ^ 31) [Attach (Some 1) 0, Detach])) module_loaded)) \<and>
   0 \<le> sint (gigabyte_kbd_refcount
       (sink_run [Attach None 0, Detach, Attach (Some 7) 0, Attach None 0, Detach, Detach, Detach]
          module_loaded)) \<and>
   gigabyte_kbd_remove (sink_step (Attach None 0) module_loaded)
     = sink_step (Attach None 0) module_loaded"
proof -
  have p: "attaches_below_max (concat (replicate (2 ^ 31) [Attach (Some 1) 0, Detach]))
      module_loaded"
    using attach_detach_pairs [of "2 ^ 31"] by blast
  have a: "attaches_below_max
      [Attach None 0, Detach, Attach (Some 7) 0, Attach None 0, Detach, Detach, Detach]
      module_loaded"
    by (simp add: gigabyte_kbd_setup_input_dev_def gigabyte_kbd_remove_def module_loaded_def
        ENOMEM_def word_sless_alt)
  have z: "gigabyte_kbd_refcount (sink_step (Attach None 0) module_loaded) = 0"
    by (simp add: gigabyte_kbd_setup_input_dev_def module_loaded_def ENOMEM_def)
  from refcount_never_negative [OF p] refcount_never_negative [OF a]
    refcount_never_negative [OF a, where s = "sink_step (Attach None 0) module_loaded"] z
  show ?thesis
    by blast
qed

text \<open>
  An attach made at the largest value does make the count negative: the 2^31-th attach
  in a row increments the 32-bit counter past it.
\<close>

theorem refcount_wraps_negative:
  "sint (gigabyte_kbd_refcount
     (sink_run (replicate (2 ^ 31) (Attach (Some 1) 0)) module_loaded)) < 0"
  unfolding attach_wraps by simp

text \<open>
  The counting is balanced where no creation of the device fails and the counter does
  not wrap. For 1 \<le> N < 2^31, N attaches followed by N detaches leave the device
  unregistered; if the first attach created the device \<open>p\<close>, N attaches followed by
  N - 1 detaches leave \<open>p\<close> registered with count 1, and a further attach keeps \<open>p\<close>
  and only increments the count. A positive count always implies a registered device.
\<close>

lemma refcounting_balanced:
  assumes "1 \<le> N" and "N < 2 ^ 31" and "length outcomes = N"
  shows "gigabyte_kbd_input_dev
           (sink_run (map (\<lambda>(alloc, reg). Attach alloc reg) outcomes @ replicate N Detach)
              module_loaded) = None \<and>
         (\<forall>p others alloc reg. outcomes = (Some p, 0) # others \<longrightarrow>
            (let s = sink_run (map (\<lambda>(alloc, reg). Attach alloc reg) outcomes
                                 @ replicate (N - 1) Detach) module_loaded
             in gigabyte_kbd_input_dev s = Some p \<and> gigabyte_kbd_refcount s = 1 \<and>
                gigabyte_kbd_setup_input_dev alloc reg s =
                  (0, s\<lparr>gigabyte_kbd_refcount := 2\<rparr>))) \<and>
         (\<forall>ops. 0 <s gigabyte_kbd_refcount (sink_run ops module_loaded) \<longrightarrow>
            gigabyte_kbd_input_dev (sink_run ops module_loaded) \<noteq> None)"
proof -
  let ?att = "map (\<lambda>(alloc, reg). Attach alloc reg) outcomes"
  have n: "attaches ?att = N"
    using assms(3) by (induction outcomes arbitrary: N) auto
  have "sink_inv 0 module_loaded"
    by (simp add: sink_inv_def module_loaded_def)
  from sink_run_inv [OF this, of ?att] assms(2) n
  have "sink_inv N (sink_run ?att module_loaded)"
    by simp
  from detach_all [OF this, of N]
  have a: "gigabyte_kbd_input_dev (sink_run (?att @ replicate N Detach) module_loaded) = None"
    by (simp add: sink_run_append)
  have b: "let s = sink_run (?att @ replicate (N - 1) Detach) module_loaded
           in gigabyte_kbd_input_dev s = Some p \<and> gigabyte_kbd_refcount s = 1 \<and>
              gigabyte_kbd_setup_input_dev alloc reg s = (0, s\<lparr>gigabyte_kbd_refcount := 2\<rparr>)"
    if o: "outcomes = (Some p, 0) # others" for p others alloc reg
  proof -
    let ?s0 = "module_loaded\<lparr>gigabyte_kbd_input_dev := Some p, gigabyte_kbd_refcount := 1\<rparr>"
    let ?rest = "map (\<lambda>(alloc, reg). Attach alloc reg) others"
    have len: "length others = N - 1"
      using assms(3) o by auto
    have nd: "Detach \<notin> set ?rest"
      by (auto simp add: image_iff split: prod.splits)
    have "sink_run ?rest ?s0 =
        ?s0\<lparr>gigabyte_kbd_refcount := gigabyte_kbd_refcount ?s0 + of_nat (length ?rest)\<rparr>"
      by (rule attach_many [where p = p], simp, rule nd)
    then have s1: "sink_run ?att module_loaded =
        module_loaded\<lparr>gigabyte_kbd_input_dev := Some p,
          gigabyte_kbd_refcount := 1 + of_nat (N - 1)\<rparr>" (is "_ = ?s1")
      by (simp add: o first_attach_snd len)
    have "(1 :: 32 word) + of_nat (N - 1) = of_nat N"
      using assms(1) by (cases N) simp_all
    then have "sint ((1 :: 32 word) + of_nat (N - 1)) = int N"
      using assms(2) by (simp add: sint_of_nat_32)
    then have lt: "int (N - 1) < sint (gigabyte_kbd_refcount ?s1)"
      using assms(1) by simp
    have "sink_run (replicate (N - 1) Detach) ?s1 =
        ?s1\<lparr>gigabyte_kbd_refcount := gigabyte_kbd_refcount ?s1 - of_nat (N - 1)\<rparr>"
      using lt by (intro detach_some [where p = p]) simp_all
    then have "sink_run (?att @ replicate (N - 1) Detach) module_loaded = ?s0"
      by (simp add: sink_run_append s1)
    then show ?thesis
      by (simp add: Let_def gigabyte_kbd_setup_input_dev_def)
  qed
  from a b registered_if_positive show ?thesis
    by blast
qed

text \<open>
  After 2^31 attaches in a row the counter is negative, and none of the detaches that
  follow passes the test for a positive count.
\<close>

lemma wrapped_count_blocks_detach:
  "gigabyte_kbd_input_dev
     (sink_run (replicate (2 ^ 31) (Attach (Some 1) 0) @ replicate (2 ^ 31) Detach)
        module_loaded) \<noteq> None"
proof -
  have "sink_run (replicate (2 ^ 31) Detach)
      (module_loaded\<lparr>gigabyte_kbd_input_dev := Some 1, gigabyte_kbd_refcount := 0x80000000\<rparr>)
      = module_loaded\<lparr>gigabyte_kbd_input_dev := Some 1, gigabyte_kbd_refcount := 0x80000000\<rparr>"
    by (rule detach_noop) (simp add: word_sless_alt)
  then show ?thesis
    unfolding sink_run_append attach_wraps by simp
qed

text \<open>
  Claim C4. Two interfaces are attached and one is detached, so by the claim the device
  stays registered. The probe of the first interface cannot allocate the device: it
  warns, returns 0 and counts nothing. The probe of the second creates the device with
  reference count 1. The removal of the first then finds a positive count, decrements it
  to 0 and unregisters the device, although the second interface is still attached.
\<close>

theorem failed_attach_unbalances_refcount:
  "fst (gigabyte_kbd_probe failed_creation_probe module_loaded) = 0 \<and>
   gigabyte_kbd_input_dev (snd (gigabyte_kbd_probe failed_creation_probe module_loaded)) = None \<and>
   gigabyte_kbd_refcount (snd (gigabyte_kbd_probe failed_creation_probe module_loaded)) = 0 \<and>
   fst (gigabyte_kbd_probe bare_probe
          (snd (gigabyte_kbd_probe failed_creation_probe module_loaded))) = 0 \<and>
   gigabyte_kbd_input_dev
     (snd (gigabyte_kbd_probe bare_probe
             (snd (gigabyte_kbd_probe failed_creation_probe module_loaded)))) = Some 1 \<and>
   gigabyte_kbd_refcount
     (snd (gigabyte_kbd_probe bare_probe
             (snd (gigabyte_kbd_probe failed_creation_probe module_loaded)))) = 1 \<and>
   gigabyte_kbd_input_dev
     (gigabyte_kbd_remove
        (snd (gigabyte_kbd_probe bare_probe
                (snd (gigabyte_kbd_probe failed_creation_probe module_loaded))))) = None \<and>
   gigabyte_kbd_input_dev
     (sink_run [Attach None 0, Attach (Some 1) 0, Detach] module_loaded) = None"
proof -
  have p1: "gigabyte_kbd_probe failed_creation_probe module_loaded =
      (0, module_loaded\<lparr>gigabyte_kbd_consumer_dev := Some 2\<rparr>)"
    by (simp add: gigabyte_kbd_probe_def failed_creation_probe_def bare_probe_def
        module_loaded_def gigabyte_kbd_setup_input_dev_def ENOMEM_def)
  have p2: "gigabyte_kbd_probe bare_probe (module_loaded\<lparr>gigabyte_kbd_consumer_dev := Some 2\<rparr>) =
      (0, module_loaded\<lparr>gigabyte_kbd_input_dev := Some 1, gigabyte_kbd_consumer_dev := Some 2,
            gigabyte_kbd_refcount := 1\<rparr>)"
    by (simp add: gigabyte_kbd_probe_def bare_probe_def module_loaded_def
        gigabyte_kbd_setup_input_dev_def)
  have r: "gigabyte_kbd_input_dev (gigabyte_kbd_remove
      (module_loaded\<lparr>gigabyte_kbd_input_dev := Some 1, gigabyte_kbd_consumer_dev := Some 2,
            gigabyte_kbd_refcount := 1\<rparr>)) = None"
    by (simp add: gigabyte_kbd_remove_def word_sless_alt)
  have s: "gigabyte_kbd_input_dev
     (sink_run [Attach None 0, Attach (Some 1) 0, Detach] module_loaded) = None"
    by (simp add: gigabyte_kbd_setup_input_dev_def gigabyte_kbd_remove_def module_loaded_def
        ENOMEM_def word_sless_alt)
  show ?thesis
    unfolding p1 snd_conv fst_conv p2 using r s by (simp add: module_loaded_def)
qed

theorem failed_attach_unbalances_refcount_witness:
  "gigabyte_kbd_input_dev
     (gigabyte_kbd_remove
        (snd (gigabyte_kbd_probe bare_probe
                (snd (gigabyte_kbd_probe failed_creation_probe module_loaded))))) = None"
  using failed_attach_unbalances_refcount by blast

end
